theory Spec2Isabelle
  imports Complex_Main
begin

section \<open>Numbers: numpy float64 values\<close>

text \<open>
  The module \<^verbatim>\<open>src/jax_sysid/utils.py\<close> computes with numpy arrays of float64 values.
  A float64 value is modelled as a real number, or one of the three non-finite values
  \<open>+inf\<close>, \<open>-inf\<close> and \<open>nan\<close>. Arithmetic on finite values is exact real arithmetic:
  neither rounding nor underflow is modelled. A result whose magnitude exceeds the largest
  finite double overflows to an infinity, as numpy's does. Division by zero does not raise:
  numpy returns an infinity or \<open>nan\<close> (with a warning). Zero carries no sign: a division of a
  nonzero value by zero takes the sign of the numerator.

  The model therefore agrees with the program on a concrete input only where the program's
  operations are exact there. The general theorems below are stated over the quantities as
  they are computed (the computed standard deviation, the computed denominator) and their
  proofs use, beyond the structure of the code, only facts of the arithmetic that hold of
  doubles as well: \<open>x * 1 = x\<close>, \<open>x / 1 = x\<close>, \<open>x - x = 0\<close> for finite \<open>x\<close>, \<open>0 / d = 0\<close> for
  \<open>d\<close> other than \<open>0\<close> and \<open>nan\<close>, the outcome of a division by zero, and the rules of the
  infinities and of \<open>nan\<close>.
\<close>

datatype float64 = Fin real | PInf | NInf | NaN

definition fmax :: real where
  "fmax = 2 ^ 1024 - 2 ^ 971"

definition of_real64 :: "real \<Rightarrow> float64" where
  "of_real64 r = (if fmax < r then PInf else if r < - fmax then NInf else Fin r)"

fun f_add :: "float64 \<Rightarrow> float64 \<Rightarrow> float64" where
  "f_add (Fin a) (Fin b) = of_real64 (a + b)"
| "f_add NaN y = NaN"
| "f_add x NaN = NaN"
| "f_add PInf NInf = NaN"
| "f_add NInf PInf = NaN"
| "f_add PInf y = PInf"
| "f_add x PInf = PInf"
| "f_add NInf y = NInf"
| "f_add x NInf = NInf"

fun f_sub :: "float64 \<Rightarrow> float64 \<Rightarrow> float64" where
  "f_sub (Fin a) (Fin b) = of_real64 (a - b)"
| "f_sub NaN y = NaN"
| "f_sub x NaN = NaN"
| "f_sub PInf PInf = NaN"
| "f_sub NInf NInf = NaN"
| "f_sub PInf y = PInf"
| "f_sub x PInf = NInf"
| "f_sub NInf y = NInf"
| "f_sub x NInf = PInf"

fun f_mul :: "float64 \<Rightarrow> float64 \<Rightarrow> float64" where
  "f_mul (Fin a) (Fin b) = of_real64 (a * b)"
| "f_mul NaN y = NaN"
| "f_mul x NaN = NaN"
| "f_mul PInf (Fin b) = (if 0 < b then PInf else if b < 0 then NInf else NaN)"
| "f_mul NInf (Fin b) = (if 0 < b then NInf else if b < 0 then PInf else NaN)"
| "f_mul (Fin a) PInf = (if 0 < a then PInf else if a < 0 then NInf else NaN)"
| "f_mul (Fin a) NInf = (if 0 < a then NInf else if a < 0 then PInf else NaN)"
| "f_mul PInf PInf = PInf"
| "f_mul PInf NInf = NInf"
| "f_mul NInf PInf = NInf"
| "f_mul NInf NInf = PInf"

fun f_div :: "float64 \<Rightarrow> float64 \<Rightarrow> float64" where
  "f_div (Fin a) (Fin b) =
     (if b = 0 then (if a = 0 then NaN else if 0 < a then PInf else NInf)
      else of_real64 (a / b))"
| "f_div NaN y = NaN"
| "f_div x NaN = NaN"
| "f_div (Fin a) PInf = Fin 0"
| "f_div (Fin a) NInf = Fin 0"
| "f_div PInf (Fin b) = (if 0 \<le> b then PInf else NInf)"
| "f_div NInf (Fin b) = (if 0 \<le> b then NInf else PInf)"
| "f_div PInf PInf = NaN"
| "f_div PInf NInf = NaN"
| "f_div NInf PInf = NaN"
| "f_div NInf NInf = NaN"

fun f_sqrt :: "float64 \<Rightarrow> float64" where
  "f_sqrt (Fin a) = (if a < 0 then NaN else of_real64 (sqrt a))"
| "f_sqrt PInf = PInf"
| "f_sqrt NInf = NaN"
| "f_sqrt NaN = NaN"

text \<open>Comparisons: every comparison with \<open>nan\<close> is false.\<close>

fun f_gt :: "float64 \<Rightarrow> float64 \<Rightarrow> bool" where
  "f_gt (Fin a) (Fin b) = (b < a)"
| "f_gt NaN y = False"
| "f_gt x NaN = False"
| "f_gt PInf PInf = False"
| "f_gt PInf y = True"
| "f_gt x PInf = False"
| "f_gt NInf y = False"
| "f_gt x NInf = True"

fun f_eq :: "float64 \<Rightarrow> float64 \<Rightarrow> bool" where
  "f_eq (Fin a) (Fin b) = (a = b)"
| "f_eq PInf PInf = True"
| "f_eq NInf NInf = True"
| "f_eq x y = False"

text \<open>A value is representable when it is non-finite or within the range of a double.\<close>

fun representable :: "float64 \<Rightarrow> bool" where
  "representable (Fin a) = (\<bar>a\<bar> \<le> fmax)"
| "representable x = True"

fun is_finite :: "float64 \<Rightarrow> bool" where
  "is_finite (Fin a) = True"
| "is_finite x = False"

section \<open>Arrays\<close>

text \<open>
  A two-dimensional array of shape \<open>(n_samples, n_features)\<close> is its list of rows together with
  the number of columns (the list of rows alone loses it when there is no row). A
  one-dimensional array is a list.
\<close>

record 'a ndarray =
  ncols :: nat
  rows :: "'a list list"

definition nrows :: "'a ndarray \<Rightarrow> nat" where
  "nrows A = length (rows A)"

definition well_shaped :: "'a ndarray \<Rightarrow> bool" where
  "well_shaped A = list_all (\<lambda>r. length r = ncols A) (rows A)"

text \<open>\<^verbatim>\<open>A[:, j]\<close> for a column that exists.\<close>

definition column :: "'a ndarray \<Rightarrow> nat \<Rightarrow> 'a list" where
  "column A j = map (\<lambda>r. r ! j) (rows A)"

datatype error = InvalidFitMetric | IndexError | BroadcastError

definition ebind :: "'e + 'a \<Rightarrow> ('a \<Rightarrow> 'e + 'b) \<Rightarrow> 'e + 'b" where
  "ebind m f = (case m of Inl e \<Rightarrow> Inl e | Inr v \<Rightarrow> f v)"

text \<open>
  numpy broadcasting of one axis: equal lengths, or one of them is 1 and is repeated;
  anything else raises \<^verbatim>\<open>ValueError: operands could not be broadcast together\<close>.
\<close>

definition broadcast_dim :: "nat \<Rightarrow> nat \<Rightarrow> nat option" where
  "broadcast_dim a b =
     (if a = b then Some a else if a = 1 then Some b else if b = 1 then Some a else None)"

definition stretch :: "nat \<Rightarrow> 'a list \<Rightarrow> 'a list" where
  "stretch n xs = (if length xs = n then xs else replicate n (hd xs))"

definition vec_op :: "('a \<Rightarrow> 'a \<Rightarrow> 'b) \<Rightarrow> 'a list \<Rightarrow> 'a list \<Rightarrow> error + 'b list" where
  "vec_op f xs ys =
     (case broadcast_dim (length xs) (length ys) of
        None \<Rightarrow> Inl BroadcastError
      | Some n \<Rightarrow> Inr (map2 f (stretch n xs) (stretch n ys)))"

definition mat_vec_op ::
  "('a \<Rightarrow> 'a \<Rightarrow> 'b) \<Rightarrow> 'a ndarray \<Rightarrow> 'a list \<Rightarrow> error + 'b ndarray" where
  "mat_vec_op f A v =
     (case broadcast_dim (ncols A) (length v) of
        None \<Rightarrow> Inl BroadcastError
      | Some k \<Rightarrow>
          Inr \<lparr>ncols = k, rows = map (\<lambda>r. map2 f (stretch k r) (stretch k v)) (rows A)\<rparr>)"

definition mat_mat_op ::
  "('a \<Rightarrow> 'a \<Rightarrow> 'b) \<Rightarrow> 'a ndarray \<Rightarrow> 'a ndarray \<Rightarrow> error + 'b ndarray" where
  "mat_mat_op f A B =
     (case broadcast_dim (nrows A) (nrows B) of
        None \<Rightarrow> Inl BroadcastError
      | Some n \<Rightarrow>
         (case broadcast_dim (ncols A) (ncols B) of
            None \<Rightarrow> Inl BroadcastError
          | Some k \<Rightarrow>
              Inr \<lparr>ncols = k,
                   rows = map2 (\<lambda>ra rb. map2 f (stretch k ra) (stretch k rb))
                            (stretch n (rows A)) (stretch n (rows B))\<rparr>))"

text \<open>
  \<^verbatim>\<open>np.sum\<close>, \<^verbatim>\<open>np.mean\<close> and \<^verbatim>\<open>np.std\<close> of a one-dimensional array, and along axis 0.
  The sum runs from left to right; numpy adds eight or more values of a one-dimensional array
  pairwise, which gives the same sum unless a partial sum overflows. No general theorem below
  depends on the order of the additions.
\<close>

definition np_sum :: "float64 list \<Rightarrow> float64" where
  "np_sum xs = foldl f_add (Fin 0) xs"

definition np_mean :: "float64 list \<Rightarrow> float64" where
  "np_mean xs = f_div (np_sum xs) (Fin (real (length xs)))"

definition np_std :: "float64 list \<Rightarrow> float64" where
  "np_std xs =
     (let m = np_mean xs;
          d = map (\<lambda>x. f_sub x m) xs
      in f_sqrt (np_mean (map (\<lambda>x. f_mul x x) d)))"

definition mean_axis0 :: "float64 ndarray \<Rightarrow> float64 list" where
  "mean_axis0 X = map (\<lambda>j. np_mean (column X j)) [0..<ncols X]"

definition std_axis0 :: "float64 ndarray \<Rightarrow> float64 list" where
  "std_axis0 X = map (\<lambda>j. np_std (column X j)) [0..<ncols X]"

section \<open>standard_scale and unscale\<close>

text \<open>
  \<^verbatim>\<open>
  xmean = np.mean(X, 0)
  xstd = np.std(X, 0)
  nX = xmean.shape[0]
  xgain = np.ones(nX)
  for i in range(nX):
      if xstd[i] > 1.e-6:
          xgain[i] = 1./xstd[i]
  return (X - xmean) * xgain, xmean, xgain
  \<close>
\<close>

fun gain_loop :: "float64 list \<Rightarrow> nat list \<Rightarrow> float64 list \<Rightarrow> float64 list" where
  "gain_loop xstd [] xgain = xgain"
| "gain_loop xstd (i # js) xgain =
     gain_loop xstd js
       (if f_gt (xstd ! i) (Fin (1 / 1000000)) then xgain[i := f_div (Fin 1) (xstd ! i)]
        else xgain)"

definition standard_scale ::
  "float64 ndarray \<Rightarrow> error + (float64 ndarray \<times> float64 list \<times> float64 list)" where
  "standard_scale X =
     (let xmean = mean_axis0 X;
          xstd = std_axis0 X;
          nX = length xmean;
          xgain = gain_loop xstd [0..<nX] (replicate nX (Fin 1))
      in ebind (mat_vec_op f_sub X xmean) (\<lambda>Xc.
         ebind (mat_vec_op f_mul Xc xgain) (\<lambda>Xs.
         Inr (Xs, xmean, xgain))))"

text \<open>\<^verbatim>\<open>return Xs/gain+offset\<close>\<close>

definition unscale ::
  "float64 ndarray \<Rightarrow> float64 list \<Rightarrow> float64 list \<Rightarrow> error + float64 ndarray" where
  "unscale Xs offset gain =
     ebind (mat_vec_op f_div Xs gain) (\<lambda>Q. mat_vec_op f_add Q offset)"

section \<open>unscale_model\<close>

text \<open>
  \<^verbatim>\<open>
  B = B*ugain
  C = (C.T/ygain).T
  D = D*ugain
  D = (D.T/ygain).T
  return A, B, C, D, ymean, umean
  \<close>
\<close>

definition transpose_nd :: "'a ndarray \<Rightarrow> 'a ndarray" where
  "transpose_nd A = \<lparr>ncols = nrows A, rows = map (column A) [0..<ncols A]\<rparr>"

definition unscale_model ::
  "float64 ndarray \<Rightarrow> float64 ndarray \<Rightarrow> float64 ndarray \<Rightarrow> float64 ndarray \<Rightarrow>
   float64 list \<Rightarrow> float64 list \<Rightarrow> float64 list \<Rightarrow> float64 list \<Rightarrow>
   error + (float64 ndarray \<times> float64 ndarray \<times> float64 ndarray \<times> float64 ndarray \<times>
            float64 list \<times> float64 list)" where
  "unscale_model A B C D ymean ygain umean ugain =
     ebind (mat_vec_op f_mul B ugain) (\<lambda>B1.
     ebind (mat_vec_op f_div (transpose_nd C) ygain) (\<lambda>Ct.
     ebind (mat_vec_op f_mul D ugain) (\<lambda>D1.
     ebind (mat_vec_op f_div (transpose_nd D1) ygain) (\<lambda>Dt.
     Inr (A, B1, transpose_nd Ct, transpose_nd Dt, ymean, umean)))))"

section \<open>compute_scores\<close>

subsection \<open>The metric selector\<close>

text \<open>
  \<^verbatim>\<open>fit.lower()\<close> and \<^verbatim>\<open>fit.capitalize()\<close> on the bytes of the string. Only the ASCII
  letters change. No other character lowers to one of the letters of \<^verbatim>\<open>r2\<close>, \<^verbatim>\<open>bfr\<close> or
  \<^verbatim>\<open>acc\<close>, so the three tests below decide as Python's do on any string. \<open>capitalize\<close>
  enters the text of the report only, and is Python's \<^verbatim>\<open>str.capitalize\<close> on selectors of ASCII
  characters (Python changes the case of other letters too); a selector that lowers to \<^verbatim>\<open>r2\<close>
  or \<^verbatim>\<open>bfr\<close> is such a selector.
\<close>

definition upper_letters :: string where
  "upper_letters = ''ABCDEFGHIJKLMNOPQRSTUVWXYZ''"

definition lower_letters :: string where
  "lower_letters = ''abcdefghijklmnopqrstuvwxyz''"

definition lower_char :: "char \<Rightarrow> char" where
  "lower_char c = (case map_of (zip upper_letters lower_letters) c of Some d \<Rightarrow> d | None \<Rightarrow> c)"

definition upper_char :: "char \<Rightarrow> char" where
  "upper_char c = (case map_of (zip lower_letters upper_letters) c of Some d \<Rightarrow> d | None \<Rightarrow> c)"

definition lower :: "string \<Rightarrow> string" where
  "lower s = map lower_char s"

fun capitalize :: "string \<Rightarrow> string" where
  "capitalize [] = []"
| "capitalize (c # cs) = upper_char c # lower cs"

definition isR2 :: "string \<Rightarrow> bool" where
  "isR2 fit = (lower fit = ''r2'')"

definition isBFR :: "string \<Rightarrow> bool" where
  "isBFR fit = (lower fit = ''bfr'')"

definition isAcc :: "string \<Rightarrow> bool" where
  "isAcc fit = (take 3 (lower fit) = ''acc'')"

subsection \<open>The three metrics on one pair of reference and prediction\<close>

text \<open>\<^verbatim>\<open>np.sum((y - np.mean(y))**2)\<close>, the denominator of R2 and (under a root) of BFR.\<close>

definition sum_sq_dev :: "float64 list \<Rightarrow> float64" where
  "sum_sq_dev y = (let m = np_mean y in np_sum (map (\<lambda>v. f_mul (f_sub v m) (f_sub v m)) y))"

text \<open>\<^verbatim>\<open>100. * (1. - np.sum(d ** 2) / nY2)\<close> for the residual \<open>d\<close>.\<close>

definition r2_score :: "float64 list \<Rightarrow> float64 \<Rightarrow> float64" where
  "r2_score d nY2 =
     f_mul (Fin 100) (f_sub (Fin 1) (f_div (np_sum (map (\<lambda>x. f_mul x x) d)) nY2))"

text \<open>\<^verbatim>\<open>np.linalg.norm\<close> of the residual: the root of the sum of its squares.\<close>

definition linalg_norm :: "float64 list \<Rightarrow> float64" where
  "linalg_norm d = f_sqrt (np_sum (map (\<lambda>x. f_mul x x) d))"

definition bfr_score :: "float64 list \<Rightarrow> float64 \<Rightarrow> float64" where
  "bfr_score d nY2 =
     f_mul (Fin 100) (f_sub (Fin 1) (f_div (linalg_norm d) (f_sqrt nY2)))"

text \<open>\<^verbatim>\<open>np.mean(yhat == y)*100\<close>, on the array of booleans.\<close>

definition acc_score :: "bool list \<Rightarrow> float64" where
  "acc_score bs = f_mul (np_mean (map (\<lambda>b. if b then Fin 1 else Fin 0) bs)) (Fin 100)"

subsection \<open>Several outputs: the loop over the channels\<close>

text \<open>\<^verbatim>\<open>A[:, i]\<close> raises IndexError when the array has no column \<open>i\<close>.\<close>

definition col_at :: "'a ndarray \<Rightarrow> nat \<Rightarrow> error + 'a list" where
  "col_at A i = (if i < ncols A then Inr (column A i) else Inl IndexError)"

definition col_op ::
  "('a \<Rightarrow> 'a \<Rightarrow> 'b) \<Rightarrow> 'a ndarray \<Rightarrow> 'a ndarray \<Rightarrow> nat \<Rightarrow> error + 'b list" where
  "col_op f Yhat Y i = ebind (col_at Yhat i) (\<lambda>a. ebind (col_at Y i) (\<lambda>b. vec_op f a b))"

definition col_sum_sq_dev :: "float64 ndarray \<Rightarrow> nat \<Rightarrow> error + float64" where
  "col_sum_sq_dev Y i = ebind (col_at Y i) (\<lambda>y. Inr (sum_sq_dev y))"

text \<open>
  Python's \<^verbatim>\<open>str(i+1)\<close>. The format \<^verbatim>\<open>{x: 5.4f}\<close> of a float is a parameter \<open>fmt\<close> of the
  model.
\<close>

fun str_nat :: "nat \<Rightarrow> string" where
  "str_nat n =
     (if n < 10 then [''0123456789'' ! n]
      else str_nat (n div 10) @ [''0123456789'' ! (n mod 10)])"

definition score_line ::
  "(float64 \<Rightarrow> string) \<Rightarrow> string \<Rightarrow> string \<Rightarrow> string \<Rightarrow> float64 \<Rightarrow> float64 \<Rightarrow> string" where
  "score_line fmt fit sep unit a b =
     capitalize fit @ '' score:'' @ sep @ ''training = '' @ fmt a @ unit @
     '', test = '' @ fmt b @ unit"

text \<open>
  One pass of the loop body for channel \<open>i\<close>, in the order in which the source reads the
  arrays: the two denominators (for R2 and BFR), the training score, the test score, the
  line of the report.
\<close>

definition score_step ::
  "(float64 \<Rightarrow> string) \<Rightarrow> float64 ndarray \<Rightarrow> float64 ndarray \<Rightarrow> float64 ndarray \<Rightarrow>
   float64 ndarray \<Rightarrow> string \<Rightarrow> nat \<Rightarrow> float64 list \<times> float64 list \<times> string \<Rightarrow>
   error + (float64 list \<times> float64 list \<times> string)" where
  "score_step fmt Y_train Yhat_train Y_test Yhat_test fit i st =
     (case st of (score_train, score_test, msg) \<Rightarrow>
      ebind
        (if isR2 fit \<or> isBFR fit then
           ebind (col_sum_sq_dev Y_train i) (\<lambda>nY_train2.
           ebind (col_sum_sq_dev Y_test i) (\<lambda>nY_test2.
           ebind (col_op f_sub Yhat_train Y_train i) (\<lambda>d_train.
           ebind (col_op f_sub Yhat_test Y_test i) (\<lambda>d_test.
           if isR2 fit then Inr (r2_score d_train nY_train2, r2_score d_test nY_test2)
           else Inr (bfr_score d_train nY_train2, bfr_score d_test nY_test2)))))
         else
           ebind (col_op f_eq Yhat_train Y_train i) (\<lambda>e_train.
           ebind (col_op f_eq Yhat_test Y_test i) (\<lambda>e_test.
           Inr (acc_score e_train, acc_score e_test))))
        (\<lambda>(a, b).
           Inr (score_train[i := a], score_test[i := b],
                msg @ [CHR 0x0A] @ ''y'' @ str_nat (i + 1) @ '': '' @
                score_line fmt fit '' '' (if isAcc fit then ''%'' else []) a b)))"

fun score_loop ::
  "(nat \<Rightarrow> 's \<Rightarrow> error + 's) \<Rightarrow> nat list \<Rightarrow> 's \<Rightarrow> error + 's" where
  "score_loop step [] st = Inr st"
| "score_loop step (i # js) st = ebind (step i st) (score_loop step js)"

subsection \<open>One output: the whole arrays\<close>

definition flat :: "'a ndarray \<Rightarrow> 'a list" where
  "flat A = concat (rows A)"

definition single_scores ::
  "float64 ndarray \<Rightarrow> float64 ndarray \<Rightarrow> float64 ndarray \<Rightarrow> float64 ndarray \<Rightarrow> string \<Rightarrow>
   error + (float64 \<times> float64)" where
  "single_scores Y_train Yhat_train Y_test Yhat_test fit =
     (let nY_train2 = sum_sq_dev (flat Y_train);
          nY_test2 = sum_sq_dev (flat Y_test)
      in if isR2 fit then
           ebind (mat_mat_op f_sub Yhat_train Y_train) (\<lambda>d_train.
           ebind (mat_mat_op f_sub Yhat_test Y_test) (\<lambda>d_test.
           Inr (r2_score (flat d_train) nY_train2, r2_score (flat d_test) nY_test2)))
         else if isBFR fit then
           ebind (mat_mat_op f_sub Yhat_train Y_train) (\<lambda>d_train.
           ebind (mat_mat_op f_sub Yhat_test Y_test) (\<lambda>d_test.
           Inr (bfr_score (flat d_train) nY_train2, bfr_score (flat d_test) nY_test2)))
         else
           ebind (mat_mat_op f_eq Yhat_train Y_train) (\<lambda>e_train.
           ebind (mat_mat_op f_eq Yhat_test Y_test) (\<lambda>e_test.
           Inr (acc_score (flat e_train), acc_score (flat e_test)))))"

subsection \<open>The function\<close>

text \<open>
  The scores are an array with one entry per output when there are several outputs, and a
  numpy scalar otherwise. The inputs are two-dimensional arrays, as the docstring has them.
\<close>

datatype score = Scalar float64 | PerOutput "float64 list"

fun score_sum :: "score \<Rightarrow> float64" where
  "score_sum (Scalar s) = s"
| "score_sum (PerOutput v) = np_sum v"

record scores =
  score_train :: score
  score_test :: score
  msg :: string

definition compute_scores ::
  "(float64 \<Rightarrow> string) \<Rightarrow> float64 ndarray \<Rightarrow> float64 ndarray \<Rightarrow> float64 ndarray \<Rightarrow>
   float64 ndarray \<Rightarrow> string \<Rightarrow> error + scores" where
  "compute_scores fmt Y_train Yhat_train Y_test Yhat_test fit =
     (let ny = ncols Y_train in
      if \<not> (isR2 fit \<or> isBFR fit \<or> isAcc fit) then Inl InvalidFitMetric
      else
        ebind
          (if 1 < ny then
             ebind (score_loop (score_step fmt Y_train Yhat_train Y_test Yhat_test fit) [0..<ny]
                      (replicate ny (Fin 0), replicate ny (Fin 0), []))
               (\<lambda>(tr, te, m).
                  Inr (PerOutput tr, PerOutput te,
                       m @ [CHR 0x0A] @ ''-----'' @ [CHR 0x0A] @ ''Average ''))
           else
             ebind (single_scores Y_train Yhat_train Y_test Yhat_test fit) (\<lambda>(a, b).
               Inr (Scalar a, Scalar b, [])))
          (\<lambda>(tr, te, m).
             Inr \<lparr>score_train = tr, score_test = te,
                  msg = m @ score_line fmt fit ''  '' (if isAcc fit then ''%'' else [])
                          (f_div (score_sum tr) (Fin (real ny)))
                          (f_div (score_sum te) (Fin (real ny)))\<rparr>))"

section \<open>The specification's formulas\<close>

text \<open>
  The population standard deviation in the specification's words: the root of the sum of the
  squared deviations from the mean, divided by the number \<open>n\<close> of samples.
\<close>

definition spec_std :: "float64 list \<Rightarrow> float64" where
  "spec_std xs =
     f_sqrt (f_div (np_sum (map (\<lambda>x. f_mul (f_sub x (np_mean xs)) (f_sub x (np_mean xs))) xs))
                   (Fin (real (length xs))))"


text \<open>
  A reference array and a prediction array for \<open>ny\<close> outputs: both rectangular with \<open>ny\<close>
  columns and the same number of samples.
\<close>

definition conformant :: "float64 ndarray \<Rightarrow> float64 ndarray \<Rightarrow> nat \<Rightarrow> bool" where
  "conformant Y Yhat ny =
     (well_shaped Y \<and> well_shaped Yhat \<and> ncols Y = ny \<and> ncols Yhat = ny \<and>
      nrows Yhat = nrows Y)"

text \<open>
  R2 of one channel: \<open>100 * (1 - sum((yhat - y)^2) / sum((y - mean(y))^2))\<close>; BFR:
  \<open>100 * (1 - sqrt(sum((yhat - y)^2)) / sqrt(sum((y - mean(y))^2)))\<close>; accuracy:
  \<open>100 * mean(yhat == y)\<close>.
\<close>

definition spec_r2 :: "float64 list \<Rightarrow> float64 list \<Rightarrow> float64" where
  "spec_r2 y yhat =
     f_mul (Fin 100) (f_sub (Fin 1)
       (f_div (np_sum (map2 (\<lambda>p r. f_mul (f_sub p r) (f_sub p r)) yhat y))
              (np_sum (map (\<lambda>v. f_mul (f_sub v (np_mean y)) (f_sub v (np_mean y))) y))))"

definition spec_bfr :: "float64 list \<Rightarrow> float64 list \<Rightarrow> float64" where
  "spec_bfr y yhat =
     f_mul (Fin 100) (f_sub (Fin 1)
       (f_div (f_sqrt (np_sum (map2 (\<lambda>p r. f_mul (f_sub p r) (f_sub p r)) yhat y)))
              (f_sqrt (np_sum (map (\<lambda>v. f_mul (f_sub v (np_mean y)) (f_sub v (np_mean y))) y)))))"

definition spec_acc :: "float64 list \<Rightarrow> float64 list \<Rightarrow> float64" where
  "spec_acc y yhat =
     f_mul (np_mean (map2 (\<lambda>p r. if f_eq p r then Fin 1 else Fin 0) yhat y)) (Fin 100)"

definition channel_score :: "string \<Rightarrow> float64 list \<Rightarrow> float64 list \<Rightarrow> float64" where
  "channel_score fit y yhat =
     (if isR2 fit then spec_r2 y yhat else if isBFR fit then spec_bfr y yhat
      else spec_acc y yhat)"

text \<open>The score of channel \<open>i\<close> in a returned score.\<close>

fun channel :: "score \<Rightarrow> nat \<Rightarrow> float64" where
  "channel (Scalar s) i = s"
| "channel (PerOutput v) i = v ! i"

text \<open>
  The overall score of the report, in the specification's words: the unweighted arithmetic mean of
  the scores of the channels, or the single score itself when it is a scalar.
\<close>

fun mean_score :: "score \<Rightarrow> float64" where
  "mean_score (Scalar s) = s"
| "mean_score (PerOutput v) = f_div (np_sum v) (Fin (real (length v)))"

text \<open>
  A stand-in for the format \<^verbatim>\<open>{x: 5.4f}\<close> in the worked examples: it prints the kind of the
  value only. The theorems hold for every format.
\<close>

fun fmt_kind :: "float64 \<Rightarrow> string" where
  "fmt_kind (Fin a) = ''finite''"
| "fmt_kind PInf = ''inf''"
| "fmt_kind NInf = ''-inf''"
| "fmt_kind NaN = ''nan''"

text \<open>
  The denominator of the R2 formula, \<open>sum((y - mean(y))^2)\<close>, and of the BFR formula, its
  root, as computed for one reference column.
\<close>

definition score_denominator :: "string \<Rightarrow> float64 list \<Rightarrow> float64" where
  "score_denominator fit y = (if isR2 fit then sum_sq_dev y else f_sqrt (sum_sq_dev y))"

text \<open>
  The report in the specification's words, written out literally. With one output it is the
  line of the overall scores, which are the two single scores themselves. With several outputs
  it is one line per channel, a separator, and the line of the overall scores, which are the
  unweighted arithmetic means of the channel scores: their sum divided by their number.
\<close>

definition spec_unit :: "string \<Rightarrow> string" where
  "spec_unit fit = (if isAcc fit then ''%'' else [])"

definition spec_summary :: "(float64 \<Rightarrow> string) \<Rightarrow> string \<Rightarrow> float64 \<Rightarrow> float64 \<Rightarrow> string" where
  "spec_summary fmt fit a b =
     capitalize fit @ '' score:  training = '' @ fmt a @ spec_unit fit @
     '', test = '' @ fmt b @ spec_unit fit"

definition spec_channel_line ::
  "(float64 \<Rightarrow> string) \<Rightarrow> string \<Rightarrow> nat \<Rightarrow> float64 \<Rightarrow> float64 \<Rightarrow> string" where
  "spec_channel_line fmt fit i a b =
     [CHR 0x0A] @ ''y'' @ str_nat (i + 1) @ '': '' @ capitalize fit @
     '' score: training = '' @ fmt a @ spec_unit fit @ '', test = '' @ fmt b @ spec_unit fit"

definition spec_mean :: "float64 list \<Rightarrow> float64" where
  "spec_mean v = f_div (np_sum v) (Fin (real (length v)))"

definition spec_report ::
  "(float64 \<Rightarrow> string) \<Rightarrow> string \<Rightarrow> float64 list \<Rightarrow> float64 list \<Rightarrow> string" where
  "spec_report fmt fit tr te =
     (if 1 < length tr then
        concat (map (\<lambda>i. spec_channel_line fmt fit i (tr ! i) (te ! i)) [0..<length tr]) @
        [CHR 0x0A] @ ''-----'' @ [CHR 0x0A] @ ''Average '' @
        spec_summary fmt fit (spec_mean tr) (spec_mean te)
      else spec_summary fmt fit (tr ! 0) (te ! 0))"

text \<open>
  The selectors on which \<open>capitalize\<close> above is Python's \<^verbatim>\<open>str.capitalize\<close>: those of ASCII
  characters only (Python also changes the case of other letters).
\<close>

definition is_ascii :: "string \<Rightarrow> bool" where
  "is_ascii s = list_all (\<lambda>c. \<not> digit7 c) s"

text \<open>
  Python's format \<^verbatim>\<open>{x: 5.4f}\<close> on the values of the model, for the worked examples: a space
  or a minus sign, the integer part, a point and four decimals, rounded half to even; the width
  5 pads the non-finite values only.
\<close>

definition half_even :: "real \<Rightarrow> nat" where
  "half_even q =
     (let f = nat \<lfloor>q\<rfloor>; r = q - real f
      in if r < 1 / 2 then f else if 1 / 2 < r then f + 1 else if even f then f else f + 1)"

definition digit_char :: "nat \<Rightarrow> char" where
  "digit_char n = ''0123456789'' ! (n mod 10)"

fun fmt_4f :: "float64 \<Rightarrow> string" where
  "fmt_4f (Fin a) =
     (let n = half_even (\<bar>a\<bar> * 10000)
      in (if a < 0 then ''-'' else '' '') @ str_nat (n div 10000) @ ''.'' @
         [digit_char (n div 1000), digit_char (n div 100), digit_char (n div 10), digit_char n])"
| "fmt_4f PInf = ''  inf''"
| "fmt_4f NInf = '' -inf''"
| "fmt_4f NaN = ''  nan''"

section \<open>Facts about the numbers and the arrays\<close>

lemma fmax_pos: "0 < fmax"
  by (simp add: fmax_def)

lemma fmax_ge: "10 ^ 300 \<le> fmax"
  by (simp add: fmax_def)

lemma fmax_lt: "fmax < 10 ^ 309"
  by (simp add: fmax_def)

lemma of_real64_Fin: "\<bar>r\<bar> \<le> fmax \<Longrightarrow> of_real64 r = Fin r"
  by (auto simp: of_real64_def)

lemma of_real64_small: "\<bar>r\<bar> \<le> 10 ^ 300 \<Longrightarrow> of_real64 r = Fin r"
  using fmax_ge by (intro of_real64_Fin) linarith

lemma of_real64_moderate: "\<bar>r\<bar> \<le> 1000000000 \<Longrightarrow> of_real64 r = Fin r"
  by (rule of_real64_small) simp

lemma representable_of_real64: "representable (of_real64 r)"
  by (auto simp: of_real64_def)

lemma representable_f_sub: "representable (f_sub x y)"
  by (cases x; cases y) (simp_all add: representable_of_real64)

lemma representable_f_mul: "representable (f_mul x y)"
  by (cases x; cases y) (simp_all add: representable_of_real64)

lemma representable_f_div: "representable (f_div x y)"
  using fmax_pos by (cases x; cases y) (simp_all add: representable_of_real64)

lemma f_mul_one: "representable x \<Longrightarrow> f_mul x (Fin 1) = x"
  by (cases x) (simp_all add: of_real64_Fin)

lemma f_div_one: "representable x \<Longrightarrow> f_div x (Fin 1) = x"
  by (cases x) (simp_all add: of_real64_Fin)

lemma is_finite_iff: "is_finite x \<longleftrightarrow> (\<exists>a. x = Fin a)"
  by (cases x) simp_all

lemma length_column: "length (column A j) = nrows A"
  by (simp add: column_def nrows_def)

lemma well_shaped_row: "well_shaped A \<Longrightarrow> r < nrows A \<Longrightarrow> length (rows A ! r) = ncols A"
  by (simp add: well_shaped_def list_all_length nrows_def)

lemma broadcast_dim_same: "broadcast_dim k k = Some k"
  by (simp add: broadcast_dim_def)

lemma stretch_same: "length xs = n \<Longrightarrow> stretch n xs = xs"
  by (simp add: stretch_def)

lemma mat_vec_op_conformant:
  assumes "well_shaped A" "length v = ncols A"
  shows "mat_vec_op f A v = Inr \<lparr>ncols = ncols A, rows = map (\<lambda>r. map2 f r v) (rows A)\<rparr>"
  using assms
  by (auto simp: mat_vec_op_def broadcast_dim_same well_shaped_def list_all_iff stretch_same)

section \<open>standard_scale\<close>

lemma np_std_spec: "np_std xs = spec_std xs"
  by (simp add: np_std_def spec_std_def np_mean_def Let_def comp_def)

lemma length_gain_loop: "length (gain_loop xstd js g) = length g"
  by (induction js arbitrary: g) simp_all

lemma gain_loop_nth:
  "i < length g \<Longrightarrow> distinct js \<Longrightarrow>
   gain_loop xstd js g ! i =
     (if i \<in> set js \<and> f_gt (xstd ! i) (Fin (1 / 1000000)) then f_div (Fin 1) (xstd ! i)
      else g ! i)"
proof (induction js arbitrary: g)
  case Nil
  then show ?case by simp
next
  case (Cons j js)
  then show ?case by (cases "i = j") auto
qed

lemma standard_scale_result:
  assumes "well_shaped X"
  shows "standard_scale X =
     Inr (\<lparr>ncols = ncols X,
            rows = map (\<lambda>r. map2 f_mul (map2 f_sub r (mean_axis0 X))
                     (gain_loop (std_axis0 X) [0..<ncols X] (replicate (ncols X) (Fin 1))))
                     (rows X)\<rparr>,
          mean_axis0 X,
          gain_loop (std_axis0 X) [0..<ncols X] (replicate (ncols X) (Fin 1)))"
proof -
  have m: "length (mean_axis0 X) = ncols X"
    by (simp add: mean_axis0_def)
  have c: "mat_vec_op f_sub X (mean_axis0 X) =
      Inr \<lparr>ncols = ncols X, rows = map (\<lambda>r. map2 f_sub r (mean_axis0 X)) (rows X)\<rparr>"
    using assms m by (rule mat_vec_op_conformant)
  have w: "well_shaped \<lparr>ncols = ncols X, rows = map (\<lambda>r. map2 f_sub r (mean_axis0 X)) (rows X)\<rparr>"
    using assms m by (simp add: well_shaped_def list_all_iff)
  show ?thesis
    unfolding standard_scale_def Let_def m c ebind_def
    by (simp add: mat_vec_op_conformant [OF w] length_gain_loop comp_def)
qed

lemma standard_scale_facts:
  assumes ws: "well_shaped X" and sc: "standard_scale X = Inr (Xs, xmean, xgain)"
  shows "ncols Xs = ncols X" and "nrows Xs = nrows X" and "well_shaped Xs"
    and "length xmean = ncols X" and "length xgain = ncols X"
    and "\<And>i. i < ncols X \<Longrightarrow> xmean ! i = f_div (np_sum (column X i)) (Fin (real (nrows X)))"
    and "\<And>i. i < ncols X \<Longrightarrow>
           xgain ! i = (if f_gt (spec_std (column X i)) (Fin (1 / 1000000))
                        then f_div (Fin 1) (spec_std (column X i)) else Fin 1)"
    and "\<And>i r. i < ncols X \<Longrightarrow> r < nrows X \<Longrightarrow>
           rows Xs ! r ! i = f_mul (f_sub (rows X ! r ! i) (xmean ! i)) (xgain ! i)"
proof -
  let ?m = "mean_axis0 X"
  let ?g = "gain_loop (std_axis0 X) [0..<ncols X] (replicate (ncols X) (Fin 1))"
  let ?Xs = "\<lparr>ncols = ncols X, rows = map (\<lambda>r. map2 f_mul (map2 f_sub r ?m) ?g) (rows X)\<rparr>"
  from standard_scale_result [OF ws] sc
  have eq: "Xs = ?Xs" "xmean = ?m" "xgain = ?g" by simp_all
  have lm: "length ?m = ncols X" by (simp add: mean_axis0_def)
  have lg: "length ?g = ncols X" by (simp add: length_gain_loop)
  show "ncols Xs = ncols X" by (simp add: eq)
  show "nrows Xs = nrows X" by (simp add: eq nrows_def)
  show "well_shaped Xs"
    using ws lm lg unfolding eq by (simp add: well_shaped_def list_all_iff)
  show "length xmean = ncols X" using lm by (simp add: eq)
  show "length xgain = ncols X" using lg by (simp add: eq)
  show "xmean ! i = f_div (np_sum (column X i)) (Fin (real (nrows X)))" if "i < ncols X" for i
    using that unfolding eq by (simp add: mean_axis0_def np_mean_def length_column)
  show "xgain ! i = (if f_gt (spec_std (column X i)) (Fin (1 / 1000000))
                     then f_div (Fin 1) (spec_std (column X i)) else Fin 1)" if "i < ncols X" for i
    using that unfolding eq by (simp add: gain_loop_nth std_axis0_def np_std_spec)
  show "rows Xs ! r ! i = f_mul (f_sub (rows X ! r ! i) (xmean ! i)) (xgain ! i)"
    if "i < ncols X" "r < nrows X" for i r
    using that well_shaped_row [OF ws, of r] lm lg unfolding eq by (simp add: nrows_def)
qed

lemmas eval_defs = standard_scale_def unscale_def mean_axis0_def std_axis0_def np_std_def
  np_mean_def np_sum_def column_def mat_vec_op_def broadcast_dim_def stretch_def ebind_def
  well_shaped_def nrows_def of_real64_moderate upt_conv_Cons

text \<open>
  C4, amended. For a rectangular matrix \<open>X\<close>, \<open>standard_scale\<close> returns without error the
  scaled matrix, the per-column mean (the column's sum divided by the number of samples) and
  the gain, where the gain of column \<open>i\<close> is \<open>1/std\<close> when the computed population standard
  deviation (divisor \<open>n\<close>) of the column exceeds \<open>1e-6\<close> and \<open>1\<close> otherwise; entry \<open>[r, i]\<close> of
  the scaled matrix is \<open>(X[r, i] - mean[i]) * gain[i]\<close>. A column whose computed standard
  deviation does not exceed \<open>1e-6\<close> (a computed zero in particular) has gain \<open>1\<close> and its
  scaled entries are exactly \<open>X[r, i] - mean[i]\<close>. The condition is on the standard deviation
  as computed: a constant column whose sum overflows does not meet it.
\<close>

theorem standard_scale_computes:
  assumes "well_shaped X"
  shows "\<exists>Xs xmean xgain. standard_scale X = Inr (Xs, xmean, xgain) \<and>
     ncols Xs = ncols X \<and> nrows Xs = nrows X \<and> well_shaped Xs \<and>
     length xmean = ncols X \<and> length xgain = ncols X \<and>
     (\<forall>i<ncols X.
        xmean ! i = f_div (np_sum (column X i)) (Fin (real (nrows X))) \<and>
        xgain ! i = (if f_gt (spec_std (column X i)) (Fin (1 / 1000000))
                     then f_div (Fin 1) (spec_std (column X i)) else Fin 1) \<and>
        (\<forall>r<nrows X. rows Xs ! r ! i = f_mul (f_sub (rows X ! r ! i) (xmean ! i)) (xgain ! i)) \<and>
        (\<not> f_gt (spec_std (column X i)) (Fin (1 / 1000000)) \<longrightarrow>
           xgain ! i = Fin 1 \<and>
           (\<forall>r<nrows X. rows Xs ! r ! i = f_sub (rows X ! r ! i) (xmean ! i))))"
proof -
  from standard_scale_result [OF assms] obtain Xs xmean xgain
    where sc: "standard_scale X = Inr (Xs, xmean, xgain)" by blast
  note f = standard_scale_facts [OF assms sc]
  have degenerate: "rows Xs ! r ! i = f_sub (rows X ! r ! i) (xmean ! i)"
    if "i < ncols X" "r < nrows X" "\<not> f_gt (spec_std (column X i)) (Fin (1 / 1000000))" for i r
    using that f(8) [of i r] f(7) [of i] by (simp add: f_mul_one representable_f_sub)
  show ?thesis
    apply (rule exI [of _ Xs], rule exI [of _ xmean], rule exI [of _ xgain])
    apply (intro conjI allI impI)
    subgoal by (rule sc)
    subgoal by (rule f(1))
    subgoal by (rule f(2))
    subgoal by (rule f(3))
    subgoal by (rule f(4))
    subgoal by (rule f(5))
    subgoal for i by (rule f(6))
    subgoal for i by (rule f(7))
    subgoal for i r by (rule f(8))
    subgoal for i using f(7) [of i] by simp
    subgoal for i r by (rule degenerate)
    done
qed

theorem standard_scale_computes_witness:
  "well_shaped \<lparr>ncols = 2, rows = [[Fin 1, Fin 7], [Fin 5, Fin 7]]\<rparr> \<and>
   standard_scale \<lparr>ncols = 2, rows = [[Fin 1, Fin 7], [Fin 5, Fin 7]]\<rparr> =
     Inr (\<lparr>ncols = 2, rows = [[Fin (- 1), Fin 0], [Fin 1, Fin 0]]\<rparr>,
          [Fin 3, Fin 7], [Fin (1 / 2), Fin 1])"
proof -
  have h: "well_shaped \<lparr>ncols = 2, rows = [[Fin 1, Fin 7], [Fin 5, Fin 7]]\<rparr>"
    by (simp add: well_shaped_def)
  show ?thesis
    using h standard_scale_computes [OF h]
    by (simp add: eval_defs Let_def)
qed

section \<open>Overflow of the standard deviation\<close>

lemma overflow_column:
  assumes h: "0 < h" "h \<le> fmax" "fmax < h * h"
  shows "np_mean [Fin h, Fin (- h)] = Fin 0"
    and "np_std [Fin h, Fin (- h)] = PInf"
proof -
  have a: "of_real64 h = Fin h" "of_real64 (- h) = Fin (- h)" "of_real64 0 = Fin 0"
    using h by (simp_all add: of_real64_Fin)
  have b: "of_real64 (h * h) = PInf"
    using h by (simp add: of_real64_def)
  show m: "np_mean [Fin h, Fin (- h)] = Fin 0"
    by (simp add: np_mean_def np_sum_def a)
  show "np_std [Fin h, Fin (- h)] = PInf"
    by (simp add: np_std_def m a b) (simp add: np_mean_def np_sum_def)
qed

lemma overflow_scale:
  assumes h: "0 < h" "h \<le> fmax" "fmax < h * h"
  shows "standard_scale \<lparr>ncols = 1, rows = [[Fin h], [Fin (- h)]]\<rparr> =
     Inr (\<lparr>ncols = 1, rows = [[Fin 0], [Fin 0]]\<rparr>, [Fin 0], [Fin 0])"
proof -
  have a: "of_real64 h = Fin h" "of_real64 (- h) = Fin (- h)" "of_real64 0 = Fin 0"
    using h by (simp_all add: of_real64_Fin)
  show ?thesis
    by (simp add: standard_scale_def mean_axis0_def std_axis0_def column_def
        overflow_column [OF h] mat_vec_op_def broadcast_dim_def stretch_def ebind_def a Let_def)
qed


lemma huge_bounds: "(0::real) < 10 ^ 200" "10 ^ 200 \<le> fmax" "fmax < 10 ^ 200 * 10 ^ 200"
  by (simp_all add: fmax_def)

lemma constant_overflow_scale:
  assumes h: "0 < h" "h \<le> fmax" "fmax < h + h"
  shows "standard_scale \<lparr>ncols = 1, rows = [[Fin h], [Fin h]]\<rparr> =
     Inr (\<lparr>ncols = 1, rows = [[NaN], [NaN]]\<rparr>, [PInf], [Fin 0])"
proof -
  have a: "of_real64 h = Fin h" "of_real64 (2 * h) = PInf"
    using h by (simp_all add: of_real64_def)
  have m: "np_mean [Fin h, Fin h] = PInf"
    by (simp add: np_mean_def np_sum_def a)
  have sd: "np_std [Fin h, Fin h] = PInf"
    by (simp add: np_std_def m) (simp add: np_mean_def np_sum_def)
  show ?thesis
    by (simp add: standard_scale_def mean_axis0_def std_axis0_def column_def m sd
        mat_vec_op_def broadcast_dim_def stretch_def ebind_def Let_def)
qed

lemma big_bounds: "(0::real) < 10 ^ 308" "10 ^ 308 \<le> fmax" "fmax < 10 ^ 308 + 10 ^ 308"
  by (simp_all add: fmax_def)

text \<open>
  C4, as stated, fails for a zero-variance column: the constant column of the two samples
  \<open>1e308\<close> has the sum \<open>+inf\<close>, hence the mean \<open>+inf\<close> and the computed standard deviation
  \<open>+inf\<close>; its gain is \<open>1/inf = 0\<close>, not \<open>1\<close>, and its scaled entries are \<open>-inf * 0 = nan\<close>.
\<close>

theorem constant_column_gain_zero:
  "standard_scale \<lparr>ncols = 1, rows = [[Fin (10 ^ 308)], [Fin (10 ^ 308)]]\<rparr> =
     Inr (\<lparr>ncols = 1, rows = [[NaN], [NaN]]\<rparr>, [PInf], [Fin 0])"
  by (rule constant_overflow_scale [OF big_bounds])

lemma gain_entry_cases:
  "(if f_gt s (Fin (1 / 1000000)) then f_div (Fin 1) s else Fin 1) =
     (case s of Fin a \<Rightarrow> if 1 / 1000000 < a then Fin (1 / a) else Fin 1
      | PInf \<Rightarrow> Fin 0 | NInf \<Rightarrow> Fin 1 | NaN \<Rightarrow> Fin 1)"
proof (cases s)
  case (Fin a)
  have "of_real64 (1 / a) = Fin (1 / a)" if "1 / 1000000 < a"
  proof (rule of_real64_small)
    from that have "0 < a" by simp
    from that have "1 / a \<le> 1000000" using \<open>0 < a\<close> by (simp add: field_simps)
    then show "\<bar>1 / a\<bar> \<le> 10 ^ 300" using \<open>0 < a\<close> by simp
  qed
  with Fin show ?thesis by auto
qed simp_all

text \<open>
  C10, as stated, fails: the two samples \<open>1e200\<close> and \<open>-1e200\<close> of one feature have mean \<open>0\<close>;
  their squared deviations overflow, so the standard deviation is \<open>+inf\<close>, which exceeds
  \<open>1e-6\<close>, and the gain is \<open>1/inf = 0\<close>: not strictly positive.
\<close>

theorem standard_scale_gain_zero:
  "standard_scale \<lparr>ncols = 1, rows = [[Fin (10 ^ 200)], [Fin (- (10 ^ 200))]]\<rparr> =
     Inr (\<lparr>ncols = 1, rows = [[Fin 0], [Fin 0]]\<rparr>, [Fin 0], [Fin 0])"
  by (rule overflow_scale [OF huge_bounds])

text \<open>
  C10, amended. For every rectangular input matrix, the gain that \<open>standard_scale\<close> returns for
  a column is a finite number, strictly positive (\<open>1\<close>, or the reciprocal of a standard
  deviation greater than \<open>1e-6\<close>) unless the standard deviation of the column overflowed to
  \<open>+inf\<close>, in which case the gain is \<open>0\<close>. So \<open>unscale\<close> divides by a nonzero gain whenever
  no column's standard deviation is infinite.
\<close>

theorem standard_scale_gain_sign:
  assumes "well_shaped X" and "standard_scale X = Inr (Xs, xmean, xgain)" and "i < ncols X"
  shows "(spec_std (column X i) = PInf \<and> xgain ! i = Fin 0) \<or>
         (spec_std (column X i) \<noteq> PInf \<and> (\<exists>g. xgain ! i = Fin g \<and> 0 < g))"
proof -
  from standard_scale_facts(7) [OF assms]
  have "xgain ! i = (if f_gt (spec_std (column X i)) (Fin (1 / 1000000))
                     then f_div (Fin 1) (spec_std (column X i)) else Fin 1)" .
  then show ?thesis
    unfolding gain_entry_cases by (cases "spec_std (column X i)") auto
qed

lemma scale_example:
  "standard_scale \<lparr>ncols = 2, rows = [[Fin 1, Fin 7], [Fin 5, Fin 7]]\<rparr> =
     Inr (\<lparr>ncols = 2, rows = [[Fin (- 1), Fin 0], [Fin 1, Fin 0]]\<rparr>,
          [Fin 3, Fin 7], [Fin (1 / 2), Fin 1])"
  by (simp add: eval_defs Let_def)

lemma well_shaped_example: "well_shaped \<lparr>ncols = 2, rows = [[Fin 1, Fin 7], [Fin 5, Fin 7]]\<rparr>"
  by (simp add: well_shaped_def)

theorem standard_scale_gain_sign_witness:
  "well_shaped \<lparr>ncols = 2, rows = [[Fin 1, Fin 7], [Fin 5, Fin 7]]\<rparr> \<and>
   standard_scale \<lparr>ncols = 2, rows = [[Fin 1, Fin 7], [Fin 5, Fin 7]]\<rparr> =
     Inr (\<lparr>ncols = 2, rows = [[Fin (- 1), Fin 0], [Fin 1, Fin 0]]\<rparr>,
          [Fin 3, Fin 7], [Fin (1 / 2), Fin 1]) \<and>
   (0::nat) < ncols \<lparr>ncols = 2, rows = [[Fin 1, Fin 7], [Fin 5, Fin 7]]\<rparr> \<and>
   spec_std (column \<lparr>ncols = 2, rows = [[Fin 1, Fin 7], [Fin 5, Fin 7]]\<rparr> 0) \<noteq> PInf \<and>
   (\<exists>g. [Fin (1 / 2), Fin 1] ! 0 = Fin g \<and> 0 < g)"
proof -
  have i: "(0::nat) < ncols \<lparr>ncols = 2, rows = [[Fin 1, Fin 7], [Fin 5, Fin 7]]\<rparr>"
    by simp
  have "[Fin (1 / 2), Fin 1] ! 0 \<noteq> Fin 0"
    by simp
  with standard_scale_gain_sign [OF well_shaped_example scale_example i]
  have "spec_std (column \<lparr>ncols = 2, rows = [[Fin 1, Fin 7], [Fin 5, Fin 7]]\<rparr> 0) \<noteq> PInf \<and>
    (\<exists>g. [Fin (1 / 2), Fin 1] ! 0 = Fin g \<and> 0 < g)"
    by blast
  with well_shaped_example scale_example i show ?thesis
    by blast
qed

section \<open>The round trip through standard_scale and unscale\<close>





section \<open>compute_scores on conformant arrays\<close>

lemma vec_op_same: "length xs = length ys \<Longrightarrow> vec_op f xs ys = Inr (map2 f xs ys)"
  by (simp add: vec_op_def broadcast_dim_def stretch_def)

lemma map_sq_map2:
  "map (\<lambda>x. f_mul x x) (map2 f_sub xs ys) = map2 (\<lambda>p r. f_mul (f_sub p r) (f_sub p r)) xs ys"
  by (simp add: comp_def case_prod_unfold)

lemma r2_score_spec: "r2_score (map2 f_sub yhat y) (sum_sq_dev y) = spec_r2 y yhat"
  unfolding r2_score_def spec_r2_def sum_sq_dev_def map_sq_map2 Let_def ..

lemma bfr_score_spec: "bfr_score (map2 f_sub yhat y) (sum_sq_dev y) = spec_bfr y yhat"
  unfolding bfr_score_def spec_bfr_def sum_sq_dev_def linalg_norm_def map_sq_map2 Let_def ..

lemma acc_score_spec: "acc_score (map2 f_eq yhat y) = spec_acc y yhat"
  by (simp add: acc_score_def spec_acc_def case_prod_unfold comp_def)

lemma isBFR_not_isR2: "isBFR fit \<Longrightarrow> \<not> isR2 fit"
  by (auto simp: isBFR_def isR2_def)

lemma col_op_conformant:
  assumes "conformant Y Yhat ny" and "i < ny"
  shows "col_op f Yhat Y i = Inr (map2 f (column Yhat i) (column Y i))"
  using assms
  by (simp add: col_op_def col_at_def conformant_def ebind_def vec_op_same length_column)

lemma col_sum_sq_dev_conformant:
  assumes "conformant Y Yhat ny" and "i < ny"
  shows "col_sum_sq_dev Y i = Inr (sum_sq_dev (column Y i))"
  using assms by (simp add: col_sum_sq_dev_def col_at_def conformant_def ebind_def)

lemma score_step_conformant:
  assumes tr: "conformant Y_train Yhat_train ny" and te: "conformant Y_test Yhat_test ny"
    and i: "i < ny"
  shows "\<exists>m'. score_step fmt Y_train Yhat_train Y_test Yhat_test fit i (st, se, m) =
     Inr (st[i := channel_score fit (column Y_train i) (column Yhat_train i)],
          se[i := channel_score fit (column Y_test i) (column Yhat_test i)], m')"
  by (simp add: score_step_def ebind_def channel_score_def
      col_op_conformant [OF tr i] col_op_conformant [OF te i]
      col_sum_sq_dev_conformant [OF tr i] col_sum_sq_dev_conformant [OF te i]
      r2_score_spec bfr_score_spec acc_score_spec)

lemma score_loop_updates:
  assumes "\<And>i st se m. i \<in> set js \<Longrightarrow>
    \<exists>m'. step i (st, se, m) = Inr (st[i := a i], se[i := b i], m')"
  shows "\<exists>m'. score_loop step js (st, se, m) =
     Inr (fold (\<lambda>i v. v[i := a i]) js st, fold (\<lambda>i v. v[i := b i]) js se, m')"
  using assms
proof (induction js arbitrary: st se m)
  case Nil
  then show ?case by simp
next
  case (Cons j js)
  from Cons.prems [of j st se m] obtain m1 where
    s: "step j (st, se, m) = Inr (st[j := a j], se[j := b j], m1)"
    by auto
  from Cons.IH [of "st[j := a j]" "se[j := b j]" m1] Cons.prems
  show ?case by (simp add: s ebind_def)
qed

lemma length_fold_update: "length (fold (\<lambda>i v. v[i := a i]) js v) = length v"
  by (induction js arbitrary: v) simp_all

lemma nth_fold_update:
  "k < length v \<Longrightarrow> fold (\<lambda>i v. v[i := a i]) js v ! k = (if k \<in> set js then a k else v ! k)"
  by (induction js arbitrary: v) (auto simp: nth_list_update)

lemma fold_update_upt:
  "length v = n \<Longrightarrow> fold (\<lambda>i v. v[i := a i]) [0..<n] v = map a [0..<n]"
  by (rule nth_equalityI) (simp_all add: length_fold_update nth_fold_update)

lemma score_loop_conformant:
  assumes tr: "conformant Y_train Yhat_train ny" and te: "conformant Y_test Yhat_test ny"
  shows "\<exists>m'. score_loop (score_step fmt Y_train Yhat_train Y_test Yhat_test fit) [0..<ny]
            (replicate ny (Fin 0), replicate ny (Fin 0), []) =
     Inr (map (\<lambda>i. channel_score fit (column Y_train i) (column Yhat_train i)) [0..<ny],
          map (\<lambda>i. channel_score fit (column Y_test i) (column Yhat_test i)) [0..<ny], m')"
proof -
  have "\<exists>m'. score_step fmt Y_train Yhat_train Y_test Yhat_test fit i (st, se, m) =
     Inr (st[i := channel_score fit (column Y_train i) (column Yhat_train i)],
          se[i := channel_score fit (column Y_test i) (column Yhat_test i)], m')"
    if "i \<in> set [0..<ny]" for i st se m
    using that by (intro score_step_conformant [OF tr te]) simp
  then have "\<exists>m'. score_loop (score_step fmt Y_train Yhat_train Y_test Yhat_test fit) [0..<ny]
            (replicate ny (Fin 0), replicate ny (Fin 0), []) =
     Inr (fold (\<lambda>i v. v[i := channel_score fit (column Y_train i) (column Yhat_train i)])
            [0..<ny] (replicate ny (Fin 0)),
          fold (\<lambda>i v. v[i := channel_score fit (column Y_test i) (column Yhat_test i)])
            [0..<ny] (replicate ny (Fin 0)), m')"
    by (rule score_loop_updates)
  then show ?thesis
    by (simp add: fold_update_upt)
qed

lemma concat_map2:
  assumes "length as = length bs" and "list_all2 (\<lambda>a b. length a = length b) as bs"
  shows "concat (map2 (map2 f) as bs) = map2 f (concat as) (concat bs)"
  using assms by (induction as bs rule: list_induct2) simp_all

lemma mat_mat_op_conformant:
  assumes "conformant Y Yhat ny"
  shows "\<exists>D. mat_mat_op f Yhat Y = Inr D \<and> flat D = map2 f (flat Yhat) (flat Y)"
proof -
  from assms have n: "nrows Yhat = nrows Y" and k: "ncols Yhat = ncols Y"
    and wy: "well_shaped Y" and wh: "well_shaped Yhat"
    by (simp_all add: conformant_def)
  have l2: "list_all2 (\<lambda>a b. length a = length b) (rows Yhat) (rows Y)"
    using n k wy wh by (simp add: list_all2_conv_all_nth nrows_def well_shaped_row)
  have st: "map2 (\<lambda>ra rb. map2 f (stretch (ncols Y) ra) (stretch (ncols Y) rb)) (rows Yhat) (rows Y)
      = map2 (map2 f) (rows Yhat) (rows Y)"
  proof (rule map_cong [OF refl])
    fix p assume p: "p \<in> set (zip (rows Yhat) (rows Y))"
    obtain a b where ab: "p = (a, b)" by (cases p)
    from p ab have "a \<in> set (rows Yhat)" "b \<in> set (rows Y)"
      by (auto dest: set_zip_leftD set_zip_rightD)
    with wy wh k have "length a = ncols Y" "length b = ncols Y"
      by (simp_all add: well_shaped_def list_all_iff)
    then show "(case p of (ra, rb) \<Rightarrow> map2 f (stretch (ncols Y) ra) (stretch (ncols Y) rb)) =
        (case p of (ra, rb) \<Rightarrow> map2 f ra rb)"
      by (simp add: ab stretch_same)
  qed
  show ?thesis
    using n k l2 by (simp add: mat_mat_op_def broadcast_dim_same stretch_same nrows_def flat_def st concat_map2)
qed

lemma single_scores_conformant:
  assumes tr: "conformant Y_train Yhat_train ny" and te: "conformant Y_test Yhat_test ny"
  shows "single_scores Y_train Yhat_train Y_test Yhat_test fit =
     Inr (channel_score fit (flat Y_train) (flat Yhat_train),
          channel_score fit (flat Y_test) (flat Yhat_test))"
proof -
  from mat_mat_op_conformant [OF tr, of f_sub] obtain D1 where
    d1: "mat_mat_op f_sub Yhat_train Y_train = Inr D1"
      "flat D1 = map2 f_sub (flat Yhat_train) (flat Y_train)" by blast
  from mat_mat_op_conformant [OF te, of f_sub] obtain D2 where
    d2: "mat_mat_op f_sub Yhat_test Y_test = Inr D2"
      "flat D2 = map2 f_sub (flat Yhat_test) (flat Y_test)" by blast
  from mat_mat_op_conformant [OF tr, of f_eq] obtain E1 where
    e1: "mat_mat_op f_eq Yhat_train Y_train = Inr E1"
      "flat E1 = map2 f_eq (flat Yhat_train) (flat Y_train)" by blast
  from mat_mat_op_conformant [OF te, of f_eq] obtain E2 where
    e2: "mat_mat_op f_eq Yhat_test Y_test = Inr E2"
      "flat E2 = map2 f_eq (flat Yhat_test) (flat Y_test)" by blast
  show ?thesis
    by (simp add: single_scores_def Let_def ebind_def channel_score_def d1 d2 e1 e2
        r2_score_spec bfr_score_spec acc_score_spec)
qed

lemma concat_singletons:
  "list_all (\<lambda>r. length r = 1) rs \<Longrightarrow> concat rs = map (\<lambda>r. r ! 0) rs"
proof (induction rs)
  case Nil
  then show ?case by simp
next
  case (Cons r rs)
  then obtain x where "r = [x]"
    by (cases r) auto
  with Cons show ?case by simp
qed

lemma flat_one_column: "well_shaped A \<Longrightarrow> ncols A = 1 \<Longrightarrow> flat A = column A 0"
  by (simp add: flat_def column_def well_shaped_def concat_singletons)

lemma compute_scores_multi:
  assumes tr: "conformant Y_train Yhat_train ny" and te: "conformant Y_test Yhat_test ny"
    and v: "isR2 fit \<or> isBFR fit \<or> isAcc fit" and ny: "1 < ny"
  shows "\<exists>m. compute_scores fmt Y_train Yhat_train Y_test Yhat_test fit =
     Inr \<lparr>score_train =
            PerOutput (map (\<lambda>i. channel_score fit (column Y_train i) (column Yhat_train i)) [0..<ny]),
          score_test =
            PerOutput (map (\<lambda>i. channel_score fit (column Y_test i) (column Yhat_test i)) [0..<ny]),
          msg = m @ score_line fmt fit ''  '' (if isAcc fit then ''%'' else [])
            (f_div (np_sum (map (\<lambda>i. channel_score fit (column Y_train i) (column Yhat_train i)) [0..<ny]))
               (Fin (real ny)))
            (f_div (np_sum (map (\<lambda>i. channel_score fit (column Y_test i) (column Yhat_test i)) [0..<ny]))
               (Fin (real ny)))\<rparr>"
proof -
  from tr have k: "ncols Y_train = ny" by (simp add: conformant_def)
  from score_loop_conformant [OF tr te, of fmt fit] obtain m' where
    "score_loop (score_step fmt Y_train Yhat_train Y_test Yhat_test fit) [0..<ny]
            (replicate ny (Fin 0), replicate ny (Fin 0), []) =
     Inr (map (\<lambda>i. channel_score fit (column Y_train i) (column Yhat_train i)) [0..<ny],
          map (\<lambda>i. channel_score fit (column Y_test i) (column Yhat_test i)) [0..<ny], m')"
    by blast
  then show ?thesis
    using v ny unfolding compute_scores_def Let_def k
    by (simp add: ebind_def)
qed

lemma compute_scores_single:
  assumes tr: "conformant Y_train Yhat_train ny" and te: "conformant Y_test Yhat_test ny"
    and v: "isR2 fit \<or> isBFR fit \<or> isAcc fit" and ny: "ny \<le> 1"
  shows "compute_scores fmt Y_train Yhat_train Y_test Yhat_test fit =
     Inr \<lparr>score_train = Scalar (channel_score fit (flat Y_train) (flat Yhat_train)),
          score_test = Scalar (channel_score fit (flat Y_test) (flat Yhat_test)),
          msg = score_line fmt fit ''  '' (if isAcc fit then ''%'' else [])
            (f_div (channel_score fit (flat Y_train) (flat Yhat_train)) (Fin (real ny)))
            (f_div (channel_score fit (flat Y_test) (flat Yhat_test)) (Fin (real ny)))\<rparr>"
proof -
  from tr have k: "ncols Y_train = ny" by (simp add: conformant_def)
  show ?thesis
    using v ny unfolding compute_scores_def Let_def k
    by (simp add: ebind_def single_scores_conformant [OF tr te])
qed

lemma flat_conformant_one:
  assumes "conformant Y Yhat 1"
  shows "flat Y = column Y 0" and "flat Yhat = column Yhat 0"
  using assms by (simp_all add: conformant_def flat_one_column)


lemma upt_2: "[0..<2] = [0, 1]"
  by (simp add: upt_conv_Cons)

lemmas lower_eval = lower_def lower_char_def upper_char_def upper_letters_def lower_letters_def
  isR2_def isBFR_def isAcc_def

lemmas column_eval = column_def np_sum_def np_mean_def of_real64_moderate conformant_def
  well_shaped_def nrows_def

lemma compute_scores_channels:
  assumes tr: "conformant Y_train Yhat_train ny" and te: "conformant Y_test Yhat_test ny"
    and v: "isR2 fit \<or> isBFR fit \<or> isAcc fit"
  shows "\<exists>res. compute_scores fmt Y_train Yhat_train Y_test Yhat_test fit = Inr res \<and>
     (\<forall>i<ny. channel (score_train res) i =
                 channel_score fit (column Y_train i) (column Yhat_train i) \<and>
              channel (score_test res) i =
                 channel_score fit (column Y_test i) (column Yhat_test i))"
proof (cases "1 < ny")
  case True
  from compute_scores_multi [OF tr te v True, of fmt] show ?thesis
    by auto
next
  case False
  then have le: "ny \<le> 1" by simp
  show ?thesis
  proof (cases "ny = 1")
    case True
    with tr te have f: "flat Y_train = column Y_train 0" "flat Yhat_train = column Yhat_train 0"
      "flat Y_test = column Y_test 0" "flat Yhat_test = column Yhat_test 0"
      by (simp_all add: flat_conformant_one)
    show ?thesis
      using True by (simp add: compute_scores_single [OF tr te v le] f)
  next
    case False
    with le have "ny = 0" by simp
    then show ?thesis
      by (simp add: compute_scores_single [OF tr te v le])
  qed
qed

text \<open>
  C1. For conformant reference and prediction arrays and a selector that lowers to \<open>r2\<close>,
  \<open>compute_scores\<close> returns, for every output channel \<open>i\<close>, the training score
  \<open>100 * (1 - sum((Yhat[:,i] - Y[:,i])^2) / sum((Y[:,i] - mean(Y[:,i]))^2))\<close> of the training
  pair, and the same formula of the test pair as the test score: each denominator uses the
  mean of its own set.
\<close>

theorem compute_scores_r2:
  assumes "conformant Y_train Yhat_train ny" and "conformant Y_test Yhat_test ny"
    and "isR2 fit"
  shows "\<exists>res. compute_scores fmt Y_train Yhat_train Y_test Yhat_test fit = Inr res \<and>
     (\<forall>i<ny. channel (score_train res) i = spec_r2 (column Y_train i) (column Yhat_train i) \<and>
              channel (score_test res) i = spec_r2 (column Y_test i) (column Yhat_test i))"
  using compute_scores_channels [OF assms(1,2), of fit fmt] assms(3)
  by (simp add: channel_score_def)

theorem compute_scores_r2_witness:
  "conformant \<lparr>ncols = 2, rows = [[Fin 1, Fin 0], [Fin 2, Fin 2], [Fin 3, Fin 4]]\<rparr>
     \<lparr>ncols = 2, rows = [[Fin 1, Fin 0], [Fin 2, Fin 3], [Fin 3, Fin 4]]\<rparr> 2 \<and>
   conformant \<lparr>ncols = 2, rows = [[Fin 0, Fin 1], [Fin 4, Fin 3]]\<rparr>
     \<lparr>ncols = 2, rows = [[Fin 2, Fin 1], [Fin 4, Fin 2]]\<rparr> 2 \<and>
   isR2 ''R2'' \<and>
   (\<exists>res. compute_scores fmt_kind
       \<lparr>ncols = 2, rows = [[Fin 1, Fin 0], [Fin 2, Fin 2], [Fin 3, Fin 4]]\<rparr>
       \<lparr>ncols = 2, rows = [[Fin 1, Fin 0], [Fin 2, Fin 3], [Fin 3, Fin 4]]\<rparr>
       \<lparr>ncols = 2, rows = [[Fin 0, Fin 1], [Fin 4, Fin 3]]\<rparr>
       \<lparr>ncols = 2, rows = [[Fin 2, Fin 1], [Fin 4, Fin 2]]\<rparr> ''R2'' = Inr res \<and>
      channel (score_train res) 0 = Fin 100 \<and>
      channel (score_train res) 1 = Fin (175 / 2) \<and>
      channel (score_test res) 0 = Fin 50 \<and>
      channel (score_test res) 1 = Fin 50)"
proof -
  have tr: "conformant \<lparr>ncols = 2, rows = [[Fin 1, Fin 0], [Fin 2, Fin 2], [Fin 3, Fin 4]]\<rparr>
     \<lparr>ncols = 2, rows = [[Fin 1, Fin 0], [Fin 2, Fin 3], [Fin 3, Fin 4]]\<rparr> 2"
    by (simp add: conformant_def well_shaped_def nrows_def)
  have te: "conformant \<lparr>ncols = 2, rows = [[Fin 0, Fin 1], [Fin 4, Fin 3]]\<rparr>
     \<lparr>ncols = 2, rows = [[Fin 2, Fin 1], [Fin 4, Fin 2]]\<rparr> 2"
    by (simp add: conformant_def well_shaped_def nrows_def)
  have sel: "isR2 ''R2''"
    by (simp add: lower_eval)
  from compute_scores_r2 [OF tr te sel, of fmt_kind] obtain res where
    res: "compute_scores fmt_kind
       \<lparr>ncols = 2, rows = [[Fin 1, Fin 0], [Fin 2, Fin 2], [Fin 3, Fin 4]]\<rparr>
       \<lparr>ncols = 2, rows = [[Fin 1, Fin 0], [Fin 2, Fin 3], [Fin 3, Fin 4]]\<rparr>
       \<lparr>ncols = 2, rows = [[Fin 0, Fin 1], [Fin 4, Fin 3]]\<rparr>
       \<lparr>ncols = 2, rows = [[Fin 2, Fin 1], [Fin 4, Fin 2]]\<rparr> ''R2'' = Inr res"
    and ch: "\<And>i. i < 2 \<Longrightarrow>
      channel (score_train res) i =
        spec_r2 (column \<lparr>ncols = 2, rows = [[Fin 1, Fin 0], [Fin 2, Fin 2], [Fin 3, Fin 4]]\<rparr> i)
          (column \<lparr>ncols = 2, rows = [[Fin 1, Fin 0], [Fin 2, Fin 3], [Fin 3, Fin 4]]\<rparr> i) \<and>
      channel (score_test res) i =
        spec_r2 (column \<lparr>ncols = 2, rows = [[Fin 0, Fin 1], [Fin 4, Fin 3]]\<rparr> i)
          (column \<lparr>ncols = 2, rows = [[Fin 2, Fin 1], [Fin 4, Fin 2]]\<rparr> i)"
    by blast
  have "channel (score_train res) 0 = Fin 100" "channel (score_test res) 0 = Fin 50"
    using ch [of 0] by (simp_all add: spec_r2_def column_eval)
  moreover have "channel (score_train res) 1 = Fin (175 / 2)" "channel (score_test res) 1 = Fin 50"
    using ch [of 1] by (simp_all add: spec_r2_def column_eval)
  ultimately show ?thesis
    using tr te sel res by blast
qed

text \<open>
  C5. For conformant reference and prediction arrays and a selector that lowers to \<open>bfr\<close>,
  \<open>compute_scores\<close> returns, for every output channel \<open>i\<close>, the training score
  \<open>100 * (1 - ||Yhat[:,i] - Y[:,i]|| / sqrt(sum((Y[:,i] - mean(Y[:,i]))^2)))\<close> of the
  training pair and the same formula of the test pair as the test score, where the norm is the
  Euclidean norm of the residual (the root of its sum of squares), and each denominator uses
  the mean of its own set.
\<close>

theorem compute_scores_bfr:
  assumes "conformant Y_train Yhat_train ny" and "conformant Y_test Yhat_test ny"
    and "isBFR fit"
  shows "\<exists>res. compute_scores fmt Y_train Yhat_train Y_test Yhat_test fit = Inr res \<and>
     (\<forall>i<ny. channel (score_train res) i = spec_bfr (column Y_train i) (column Yhat_train i) \<and>
              channel (score_test res) i = spec_bfr (column Y_test i) (column Yhat_test i))"
  using compute_scores_channels [OF assms(1,2), of fit fmt] assms(3)
  by (simp add: channel_score_def isBFR_not_isR2)

theorem compute_scores_bfr_witness:
  "conformant \<lparr>ncols = 1, rows = [[Fin 0], [Fin 2], [Fin 0], [Fin 2]]\<rparr>
     \<lparr>ncols = 1, rows = [[Fin 1], [Fin 2], [Fin 0], [Fin 2]]\<rparr> 1 \<and>
   conformant \<lparr>ncols = 1, rows = [[Fin 5], [Fin 7], [Fin 5], [Fin 7]]\<rparr>
     \<lparr>ncols = 1, rows = [[Fin 5], [Fin 7], [Fin 5], [Fin 7]]\<rparr> 1 \<and>
   isBFR ''bfr'' \<and>
   (\<exists>res. compute_scores fmt_kind
       \<lparr>ncols = 1, rows = [[Fin 0], [Fin 2], [Fin 0], [Fin 2]]\<rparr>
       \<lparr>ncols = 1, rows = [[Fin 1], [Fin 2], [Fin 0], [Fin 2]]\<rparr>
       \<lparr>ncols = 1, rows = [[Fin 5], [Fin 7], [Fin 5], [Fin 7]]\<rparr>
       \<lparr>ncols = 1, rows = [[Fin 5], [Fin 7], [Fin 5], [Fin 7]]\<rparr> ''bfr'' = Inr res \<and>
      channel (score_train res) 0 = Fin 50 \<and>
      channel (score_test res) 0 = Fin 100)"
proof -
  have tr: "conformant \<lparr>ncols = 1, rows = [[Fin 0], [Fin 2], [Fin 0], [Fin 2]]\<rparr>
     \<lparr>ncols = 1, rows = [[Fin 1], [Fin 2], [Fin 0], [Fin 2]]\<rparr> 1"
    by (simp add: conformant_def well_shaped_def nrows_def)
  have te: "conformant \<lparr>ncols = 1, rows = [[Fin 5], [Fin 7], [Fin 5], [Fin 7]]\<rparr>
     \<lparr>ncols = 1, rows = [[Fin 5], [Fin 7], [Fin 5], [Fin 7]]\<rparr> 1"
    by (simp add: conformant_def well_shaped_def nrows_def)
  have sel: "isBFR ''bfr''"
    by (simp add: lower_eval)
  from compute_scores_bfr [OF tr te sel, of fmt_kind] obtain res where
    res: "compute_scores fmt_kind
       \<lparr>ncols = 1, rows = [[Fin 0], [Fin 2], [Fin 0], [Fin 2]]\<rparr>
       \<lparr>ncols = 1, rows = [[Fin 1], [Fin 2], [Fin 0], [Fin 2]]\<rparr>
       \<lparr>ncols = 1, rows = [[Fin 5], [Fin 7], [Fin 5], [Fin 7]]\<rparr>
       \<lparr>ncols = 1, rows = [[Fin 5], [Fin 7], [Fin 5], [Fin 7]]\<rparr> ''bfr'' = Inr res"
    and ch: "\<And>i. i < 1 \<Longrightarrow>
      channel (score_train res) i =
        spec_bfr (column \<lparr>ncols = 1, rows = [[Fin 0], [Fin 2], [Fin 0], [Fin 2]]\<rparr> i)
          (column \<lparr>ncols = 1, rows = [[Fin 1], [Fin 2], [Fin 0], [Fin 2]]\<rparr> i) \<and>
      channel (score_test res) i =
        spec_bfr (column \<lparr>ncols = 1, rows = [[Fin 5], [Fin 7], [Fin 5], [Fin 7]]\<rparr> i)
          (column \<lparr>ncols = 1, rows = [[Fin 5], [Fin 7], [Fin 5], [Fin 7]]\<rparr> i)"
    by blast
  have "channel (score_train res) 0 = Fin 50" "channel (score_test res) 0 = Fin 100"
    using ch [of 0] by (simp_all add: spec_bfr_def column_eval)
  then show ?thesis
    using tr te sel res by blast
qed


section \<open>The invalid selector\<close>

lemma ebind_ok:
  assumes "m \<noteq> Inl InvalidFitMetric" and "\<And>v. f v \<noteq> Inl InvalidFitMetric"
  shows "ebind m f \<noteq> Inl InvalidFitMetric"
  using assms by (cases m) (simp_all add: ebind_def)

lemma vec_op_error: "vec_op f xs ys \<noteq> Inl InvalidFitMetric"
  by (simp add: vec_op_def split: option.split)

lemma col_at_error: "col_at A i \<noteq> Inl InvalidFitMetric"
  by (simp add: col_at_def)

lemma col_op_error: "col_op f Yhat Y i \<noteq> Inl InvalidFitMetric"
  unfolding col_op_def
  by (intro ebind_ok col_at_error vec_op_error)

lemma col_sum_sq_dev_error: "col_sum_sq_dev Y i \<noteq> Inl InvalidFitMetric"
  unfolding col_sum_sq_dev_def
  by (intro ebind_ok col_at_error) simp

lemma mat_mat_op_error: "mat_mat_op f A B \<noteq> Inl InvalidFitMetric"
  by (simp add: mat_mat_op_def split: option.split)

lemma score_step_error:
  "score_step fmt Y_train Yhat_train Y_test Yhat_test fit i st \<noteq> Inl InvalidFitMetric"
proof -
  obtain a b c where st: "st = (a, b, c)"
    by (cases st)
  have r2: "(if isR2 fit then Inr (x1, x2) else Inr (y1, y2)) \<noteq>
      (Inl InvalidFitMetric :: error + float64 \<times> float64)" for x1 x2 y1 y2 :: float64
    by simp
  have fin: "(case p of (a', b') \<Rightarrow> Inr (g a' b')) \<noteq> (Inl InvalidFitMetric :: error + 'z)"
    for p :: "float64 \<times> float64" and g :: "float64 \<Rightarrow> float64 \<Rightarrow> 'z"
    by (cases p) simp
  show ?thesis
    unfolding score_step_def st prod.case
    apply (rule ebind_ok)
     apply (cases "isR2 fit \<or> isBFR fit")
      apply (simp only: if_True)
      apply (intro ebind_ok col_op_error col_sum_sq_dev_error r2)
     apply (simp only: if_False)
     apply (intro ebind_ok col_op_error)
     apply simp
    apply (rule fin)
    done
qed

lemma score_loop_error:
  assumes "\<And>i st. step i st \<noteq> Inl InvalidFitMetric"
  shows "score_loop step js st \<noteq> Inl InvalidFitMetric"
proof (induction js arbitrary: st)
  case Nil
  show ?case by simp
next
  case (Cons j js)
  show ?case
    unfolding score_loop.simps by (intro ebind_ok assms Cons.IH)
qed

lemma single_scores_error:
  "single_scores Y_train Yhat_train Y_test Yhat_test fit \<noteq> Inl InvalidFitMetric"
proof -
  have e: "ebind (mat_mat_op f A B) (\<lambda>d1. ebind (mat_mat_op f A' B') (\<lambda>d2. Inr (g d1 d2)))
      \<noteq> (Inl InvalidFitMetric :: error + float64 \<times> float64)"
    for f :: "float64 \<Rightarrow> float64 \<Rightarrow> 'c" and A B A' B' g
    by (intro ebind_ok mat_mat_op_error) simp
  show ?thesis
    unfolding single_scores_def Let_def
    by (cases "isR2 fit"; cases "isBFR fit") (simp_all add: e)
qed

lemma compute_scores_valid_error:
  assumes "isR2 fit \<or> isBFR fit \<or> isAcc fit"
  shows "compute_scores fmt Y_train Yhat_train Y_test Yhat_test fit \<noteq> Inl InvalidFitMetric"
proof -
  have fin: "(case p of (a', b', c') \<Rightarrow> Inr (g a' b' c')) \<noteq> (Inl InvalidFitMetric :: error + 'z)"
    for p :: "'u \<times> 'v \<times> 'w" and g :: "'u \<Rightarrow> 'v \<Rightarrow> 'w \<Rightarrow> 'z"
    by (cases p) simp
  have fin2: "(case p of (a', b') \<Rightarrow> Inr (g a' b')) \<noteq> (Inl InvalidFitMetric :: error + 'z)"
    for p :: "'u \<times> 'v" and g :: "'u \<Rightarrow> 'v \<Rightarrow> 'z"
    by (cases p) simp
  have body: "(if 1 < ny then
             ebind (score_loop (score_step fmt Y_train Yhat_train Y_test Yhat_test fit) [0..<ny]
                      (replicate ny (Fin 0), replicate ny (Fin 0), []))
               (\<lambda>(tr, te, m).
                  Inr (PerOutput tr, PerOutput te,
                       m @ [CHR 0x0A] @ ''-----'' @ [CHR 0x0A] @ ''Average ''))
           else
             ebind (single_scores Y_train Yhat_train Y_test Yhat_test fit) (\<lambda>(a, b).
               Inr (Scalar a, Scalar b, []))) \<noteq> Inl InvalidFitMetric" for ny
    by (cases "1 < ny")
      (simp_all only: if_True if_False,
        intro ebind_ok score_loop_error score_step_error fin,
        intro ebind_ok single_scores_error fin2)
  from assms have v: "\<not> \<not> (isR2 fit \<or> isBFR fit \<or> isAcc fit)"
    by simp
  show ?thesis
    unfolding compute_scores_def Let_def if_not_P [OF v]
    by (intro ebind_ok body fin)
qed

text \<open>
  C2. \<open>compute_scores\<close> raises the invalid-metric error if and only if the lowered selector is
  neither \<open>r2\<close> nor \<open>bfr\<close> and its first three characters are not \<open>acc\<close>. This holds for all
  data arrays, conformant or not: with an invalid selector the error is the result whatever the
  arrays hold, and with a valid selector every failure on the arrays is another error.
\<close>

theorem compute_scores_invalid_iff:
  "compute_scores fmt Y_train Yhat_train Y_test Yhat_test fit = Inl InvalidFitMetric \<longleftrightarrow>
     \<not> (lower fit = ''r2'' \<or> lower fit = ''bfr'' \<or> take 3 (lower fit) = ''acc'')"
proof (cases "isR2 fit \<or> isBFR fit \<or> isAcc fit")
  case True
  from compute_scores_valid_error [OF True] True show ?thesis
    by (simp add: isR2_def isBFR_def isAcc_def)
next
  case False
  then have "compute_scores fmt Y_train Yhat_train Y_test Yhat_test fit = Inl InvalidFitMetric"
    by (simp add: compute_scores_def)
  with False show ?thesis
    by (simp add: isR2_def isBFR_def isAcc_def)
qed

theorem compute_scores_invalid_iff_witness:
  "compute_scores fmt_kind \<lparr>ncols = 3, rows = [[Fin 1]]\<rparr> \<lparr>ncols = 1, rows = []\<rparr>
     \<lparr>ncols = 0, rows = [[]]\<rparr> \<lparr>ncols = 2, rows = [[NaN, PInf]]\<rparr> ''bogus'' =
     Inl InvalidFitMetric \<and>
   compute_scores fmt_kind \<lparr>ncols = 3, rows = [[Fin 1]]\<rparr> \<lparr>ncols = 1, rows = []\<rparr>
     \<lparr>ncols = 0, rows = [[]]\<rparr> \<lparr>ncols = 2, rows = [[NaN, PInf]]\<rparr> ''ACCuracy'' \<noteq>
     Inl InvalidFitMetric"
  using compute_scores_invalid_iff [of fmt_kind "\<lparr>ncols = 3, rows = [[Fin 1]]\<rparr>"
      "\<lparr>ncols = 1, rows = []\<rparr>" "\<lparr>ncols = 0, rows = [[]]\<rparr>"
      "\<lparr>ncols = 2, rows = [[NaN, PInf]]\<rparr>" "''bogus''"]
    compute_scores_invalid_iff [of fmt_kind "\<lparr>ncols = 3, rows = [[Fin 1]]\<rparr>"
      "\<lparr>ncols = 1, rows = []\<rparr>" "\<lparr>ncols = 0, rows = [[]]\<rparr>"
      "\<lparr>ncols = 2, rows = [[NaN, PInf]]\<rparr>" "''ACCuracy''"]
  by (simp add: lower_eval)


section \<open>The overall score\<close>

lemma representable_channel_score: "representable (channel_score fit y yhat)"
  by (simp add: channel_score_def spec_r2_def spec_bfr_def spec_acc_def representable_f_mul)

lemma isR2_not_isAcc: "isR2 fit \<Longrightarrow> \<not> isAcc fit"
  by (simp add: isR2_def isAcc_def)

lemma isBFR_not_isAcc: "isBFR fit \<Longrightarrow> \<not> isAcc fit"
  by (simp add: isBFR_def isAcc_def)

lemma compute_scores_overall:
  assumes tr: "conformant Y_train Yhat_train ny" and te: "conformant Y_test Yhat_test ny"
    and v: "isR2 fit \<or> isBFR fit \<or> isAcc fit" and ny: "1 \<le> ny"
  shows "\<exists>res m. compute_scores fmt Y_train Yhat_train Y_test Yhat_test fit = Inr res \<and>
     msg res = m @ score_line fmt fit ''  '' (if isAcc fit then ''%'' else [])
                 (mean_score (score_train res)) (mean_score (score_test res)) \<and>
     (\<forall>i<ny. channel (score_train res) i =
                 channel_score fit (column Y_train i) (column Yhat_train i) \<and>
              channel (score_test res) i =
                 channel_score fit (column Y_test i) (column Yhat_test i)) \<and>
     (1 < ny \<longrightarrow> (\<exists>a b. score_train res = PerOutput a \<and> score_test res = PerOutput b \<and>
                     length a = ny \<and> length b = ny)) \<and>
     (ny = 1 \<longrightarrow> (\<exists>a b. score_train res = Scalar a \<and> score_test res = Scalar b))"
proof (cases "1 < ny")
  case True
  let ?a = "map (\<lambda>i. channel_score fit (column Y_train i) (column Yhat_train i)) [0..<ny]"
  let ?b = "map (\<lambda>i. channel_score fit (column Y_test i) (column Yhat_test i)) [0..<ny]"
  from compute_scores_multi [OF tr te v True, of fmt] obtain m where
    eq: "compute_scores fmt Y_train Yhat_train Y_test Yhat_test fit =
     Inr \<lparr>score_train = PerOutput ?a, score_test = PerOutput ?b,
          msg = m @ score_line fmt fit ''  '' (if isAcc fit then ''%'' else [])
            (f_div (np_sum ?a) (Fin (real ny))) (f_div (np_sum ?b) (Fin (real ny)))\<rparr>"
    by blast
  show ?thesis
    unfolding eq
    by (rule exI [of _ "\<lparr>score_train = PerOutput ?a, score_test = PerOutput ?b,
          msg = m @ score_line fmt fit ''  '' (if isAcc fit then ''%'' else [])
            (f_div (np_sum ?a) (Fin (real ny))) (f_div (np_sum ?b) (Fin (real ny)))\<rparr>"],
        rule exI [of _ m]) (use True in simp)
next
  case False
  with ny have one: "ny = 1" by simp
  then have le: "ny \<le> 1" by simp
  from tr te one have f: "flat Y_train = column Y_train 0" "flat Yhat_train = column Yhat_train 0"
      "flat Y_test = column Y_test 0" "flat Yhat_test = column Yhat_test 0"
    by (simp_all add: flat_conformant_one)
  let ?a = "channel_score fit (column Y_train 0) (column Yhat_train 0)"
  let ?b = "channel_score fit (column Y_test 0) (column Yhat_test 0)"
  have eq: "compute_scores fmt Y_train Yhat_train Y_test Yhat_test fit =
     Inr \<lparr>score_train = Scalar ?a, score_test = Scalar ?b,
          msg = score_line fmt fit ''  '' (if isAcc fit then ''%'' else []) ?a ?b\<rparr>"
    using one
    by (simp add: compute_scores_single [OF tr te v le] f f_div_one representable_channel_score)
  show ?thesis
    unfolding eq
    by (rule exI [of _ "\<lparr>score_train = Scalar ?a, score_test = Scalar ?b,
          msg = score_line fmt fit ''  '' (if isAcc fit then ''%'' else []) ?a ?b\<rparr>"],
        rule exI [of _ "[]"]) (simp add: one)
qed

lemma score_step_line:
  assumes tr: "conformant Y_train Yhat_train ny" and te: "conformant Y_test Yhat_test ny"
    and i: "i < ny"
  shows "score_step fmt Y_train Yhat_train Y_test Yhat_test fit i (st, se, m) =
     Inr (st[i := channel_score fit (column Y_train i) (column Yhat_train i)],
          se[i := channel_score fit (column Y_test i) (column Yhat_test i)],
          m @ spec_channel_line fmt fit i
                (channel_score fit (column Y_train i) (column Yhat_train i))
                (channel_score fit (column Y_test i) (column Yhat_test i)))"
  by (simp add: score_step_def ebind_def channel_score_def
      col_op_conformant [OF tr i] col_op_conformant [OF te i]
      col_sum_sq_dev_conformant [OF tr i] col_sum_sq_dev_conformant [OF te i]
      r2_score_spec bfr_score_spec acc_score_spec
      spec_channel_line_def score_line_def spec_unit_def)

lemma score_loop_lines:
  assumes "\<And>i st se m. i \<in> set js \<Longrightarrow>
    step i (st, se, m) = Inr (st[i := a i], se[i := b i], m @ l i)"
  shows "score_loop step js (st, se, m) =
     Inr (fold (\<lambda>i v. v[i := a i]) js st, fold (\<lambda>i v. v[i := b i]) js se,
          m @ concat (map l js))"
  using assms
proof (induction js arbitrary: st se m)
  case Nil
  then show ?case by simp
next
  case (Cons j js)
  have s: "step j (st, se, m) = Inr (st[j := a j], se[j := b j], m @ l j)"
    by (rule Cons.prems) simp
  have "score_loop step js (st[j := a j], se[j := b j], m @ l j) =
     Inr (fold (\<lambda>i v. v[i := a i]) js (st[j := a j]), fold (\<lambda>i v. v[i := b i]) js (se[j := b j]),
          (m @ l j) @ concat (map l js))"
    by (rule Cons.IH) (rule Cons.prems, simp)
  with s show ?case
    by (simp add: ebind_def)
qed

lemma score_line_summary:
  "score_line fmt fit ''  '' (if isAcc fit then ''%'' else []) a b = spec_summary fmt fit a b"
  by (simp add: score_line_def spec_summary_def spec_unit_def)

lemma compute_scores_report:
  assumes tr: "conformant Y_train Yhat_train ny" and te: "conformant Y_test Yhat_test ny"
    and v: "isR2 fit \<or> isBFR fit \<or> isAcc fit" and ny: "1 \<le> ny"
  shows "compute_scores fmt Y_train Yhat_train Y_test Yhat_test fit =
     Inr \<lparr>score_train =
            (if 1 < ny
             then PerOutput (map (\<lambda>i. channel_score fit (column Y_train i) (column Yhat_train i))
                    [0..<ny])
             else Scalar (channel_score fit (column Y_train 0) (column Yhat_train 0))),
          score_test =
            (if 1 < ny
             then PerOutput (map (\<lambda>i. channel_score fit (column Y_test i) (column Yhat_test i))
                    [0..<ny])
             else Scalar (channel_score fit (column Y_test 0) (column Yhat_test 0))),
          msg = spec_report fmt fit
            (map (\<lambda>i. channel_score fit (column Y_train i) (column Yhat_train i)) [0..<ny])
            (map (\<lambda>i. channel_score fit (column Y_test i) (column Yhat_test i)) [0..<ny])\<rparr>"
proof (cases "1 < ny")
  case True
  let ?a = "\<lambda>i. channel_score fit (column Y_train i) (column Yhat_train i)"
  let ?b = "\<lambda>i. channel_score fit (column Y_test i) (column Yhat_test i)"
  from tr have k: "ncols Y_train = ny" by (simp add: conformant_def)
  have "score_loop (score_step fmt Y_train Yhat_train Y_test Yhat_test fit) [0..<ny]
            (replicate ny (Fin 0), replicate ny (Fin 0), []) =
     Inr (fold (\<lambda>i v. v[i := ?a i]) [0..<ny] (replicate ny (Fin 0)),
          fold (\<lambda>i v. v[i := ?b i]) [0..<ny] (replicate ny (Fin 0)),
          [] @ concat (map (\<lambda>i. spec_channel_line fmt fit i (?a i) (?b i)) [0..<ny]))"
    by (rule score_loop_lines) (rule score_step_line [OF tr te], simp)
  then have loop: "score_loop (score_step fmt Y_train Yhat_train Y_test Yhat_test fit) [0..<ny]
            (replicate ny (Fin 0), replicate ny (Fin 0), []) =
     Inr (map ?a [0..<ny], map ?b [0..<ny],
          concat (map (\<lambda>i. spec_channel_line fmt fit i (?a i) (?b i)) [0..<ny]))"
    by (simp add: fold_update_upt)
  have lines: "map (\<lambda>i. spec_channel_line fmt fit i (map ?a [0..<ny] ! i) (map ?b [0..<ny] ! i))
      [0..<ny] = map (\<lambda>i. spec_channel_line fmt fit i (?a i) (?b i)) [0..<ny]"
    by (rule map_cong) simp_all
  show ?thesis
    using v True unfolding compute_scores_def Let_def k
    by (simp add: ebind_def loop score_line_summary spec_report_def spec_mean_def lines)
next
  case False
  with ny have one: "ny = 1" by simp
  then have le: "ny \<le> 1" by simp
  from tr te one have f: "flat Y_train = column Y_train 0" "flat Yhat_train = column Yhat_train 0"
      "flat Y_test = column Y_test 0" "flat Yhat_test = column Yhat_test 0"
    by (simp_all add: flat_conformant_one)
  show ?thesis
    using one
    by (simp add: compute_scores_single [OF tr te v le] f f_div_one representable_channel_score
        score_line_summary spec_report_def)
qed

text \<open>
  C7. For conformant arrays, a valid selector of ASCII characters and at least one output,
  \<open>compute_scores\<close> returns the channel scores \<open>tr\<close> and \<open>te\<close> of the metric (as an array with
  several outputs, as a scalar with one) and the report \<open>spec_report\<close> of these scores: its
  last line prints, with several outputs, the unweighted arithmetic means \<open>sum(tr)/ny\<close> and
  \<open>sum(te)/ny\<close> of the channel scores, and with one output the single scores themselves.
\<close>

theorem report_overall_scores:
  assumes "conformant Y_train Yhat_train ny" and "conformant Y_test Yhat_test ny"
    and "isR2 fit \<or> isBFR fit \<or> isAcc fit" and "is_ascii fit" and "1 \<le> ny"
  shows "\<exists>res tr te. compute_scores fmt Y_train Yhat_train Y_test Yhat_test fit = Inr res \<and>
     length tr = ny \<and> length te = ny \<and>
     (\<forall>i<ny. tr ! i = channel_score fit (column Y_train i) (column Yhat_train i) \<and>
              te ! i = channel_score fit (column Y_test i) (column Yhat_test i)) \<and>
     (1 < ny \<longrightarrow> score_train res = PerOutput tr \<and> score_test res = PerOutput te) \<and>
     (ny = 1 \<longrightarrow> score_train res = Scalar (tr ! 0) \<and> score_test res = Scalar (te ! 0)) \<and>
     msg res = spec_report fmt fit tr te"
proof -
  let ?tr = "map (\<lambda>i. channel_score fit (column Y_train i) (column Yhat_train i)) [0..<ny]"
  let ?te = "map (\<lambda>i. channel_score fit (column Y_test i) (column Yhat_test i)) [0..<ny]"
  let ?res = "\<lparr>score_train =
            (if 1 < ny then PerOutput ?tr
             else Scalar (channel_score fit (column Y_train 0) (column Yhat_train 0))),
          score_test =
            (if 1 < ny then PerOutput ?te
             else Scalar (channel_score fit (column Y_test 0) (column Yhat_test 0))),
          msg = spec_report fmt fit ?tr ?te\<rparr>"
  have r: "compute_scores fmt Y_train Yhat_train Y_test Yhat_test fit = Inr ?res"
    by (rule compute_scores_report [OF assms(1,2,3,5)])
  have "length ?tr = ny" "length ?te = ny"
    by simp_all
  moreover have "\<forall>i<ny. ?tr ! i = channel_score fit (column Y_train i) (column Yhat_train i) \<and>
              ?te ! i = channel_score fit (column Y_test i) (column Yhat_test i)"
    by simp
  moreover have "1 < ny \<longrightarrow> score_train ?res = PerOutput ?tr \<and> score_test ?res = PerOutput ?te"
    by simp
  moreover have "ny = 1 \<longrightarrow> score_train ?res = Scalar (?tr ! 0) \<and> score_test ?res = Scalar (?te ! 0)"
    by simp
  moreover have "msg ?res = spec_report fmt fit ?tr ?te"
    by simp
  ultimately show ?thesis
    using r by blast
qed

lemma list3: "length v = 3 \<Longrightarrow> v = [v ! 0, v ! 1, v ! 2]"
  by (rule nth_equalityI) (auto simp: less_Suc_eq eval_nat_numeral)

theorem report_overall_scores_witness:
  "conformant
     \<lparr>ncols = 3, rows = [[Fin 2, Fin 3, Fin 4], [Fin (- 2), Fin (- 3), Fin (- 3)],
                         [Fin 1, Fin 1, Fin (- 2)], [Fin (- 1), Fin (- 1), Fin 1]]\<rparr>
     \<lparr>ncols = 3, rows = [[Fin 3, Fin 5, Fin 7], [Fin (- 2), Fin (- 3), Fin (- 3)],
                         [Fin 1, Fin 1, Fin (- 2)], [Fin (- 1), Fin (- 1), Fin 1]]\<rparr> 3 \<and>
   conformant
     \<lparr>ncols = 3, rows = [[Fin 2, Fin 3, Fin 4], [Fin (- 2), Fin (- 3), Fin (- 3)],
                         [Fin 1, Fin 1, Fin (- 2)], [Fin (- 1), Fin (- 1), Fin 1]]\<rparr>
     \<lparr>ncols = 3, rows = [[Fin 2, Fin 3, Fin 4], [Fin (- 2), Fin (- 3), Fin (- 3)],
                         [Fin 1, Fin 1, Fin (- 2)], [Fin (- 1), Fin (- 1), Fin 1]]\<rparr> 3 \<and>
   (isR2 ''R2'' \<or> isBFR ''R2'' \<or> isAcc ''R2'') \<and> is_ascii ''R2'' \<and> (1::nat) \<le> 3 \<and>
   compute_scores fmt_4f
       \<lparr>ncols = 3, rows = [[Fin 2, Fin 3, Fin 4], [Fin (- 2), Fin (- 3), Fin (- 3)],
                           [Fin 1, Fin 1, Fin (- 2)], [Fin (- 1), Fin (- 1), Fin 1]]\<rparr>
       \<lparr>ncols = 3, rows = [[Fin 3, Fin 5, Fin 7], [Fin (- 2), Fin (- 3), Fin (- 3)],
                           [Fin 1, Fin 1, Fin (- 2)], [Fin (- 1), Fin (- 1), Fin 1]]\<rparr>
       \<lparr>ncols = 3, rows = [[Fin 2, Fin 3, Fin 4], [Fin (- 2), Fin (- 3), Fin (- 3)],
                           [Fin 1, Fin 1, Fin (- 2)], [Fin (- 1), Fin (- 1), Fin 1]]\<rparr>
       \<lparr>ncols = 3, rows = [[Fin 2, Fin 3, Fin 4], [Fin (- 2), Fin (- 3), Fin (- 3)],
                           [Fin 1, Fin 1, Fin (- 2)], [Fin (- 1), Fin (- 1), Fin 1]]\<rparr>
       ''R2'' =
     Inr \<lparr>score_train = PerOutput [Fin 90, Fin 80, Fin 70],
          score_test = PerOutput [Fin 100, Fin 100, Fin 100],
          msg = [CHR 0x0A] @ ''y1: R2 score: training =  90.0000, test =  100.0000'' @
                [CHR 0x0A] @ ''y2: R2 score: training =  80.0000, test =  100.0000'' @
                [CHR 0x0A] @ ''y3: R2 score: training =  70.0000, test =  100.0000'' @
                [CHR 0x0A] @ ''-----'' @
                [CHR 0x0A] @ ''Average R2 score:  training =  80.0000, test =  100.0000''\<rparr>"
proof -
  let ?Y = "\<lparr>ncols = 3, rows = [[Fin 2, Fin 3, Fin 4], [Fin (- 2), Fin (- 3), Fin (- 3)],
                         [Fin 1, Fin 1, Fin (- 2)], [Fin (- 1), Fin (- 1), Fin 1]]\<rparr>"
  let ?Yh = "\<lparr>ncols = 3, rows = [[Fin 3, Fin 5, Fin 7], [Fin (- 2), Fin (- 3), Fin (- 3)],
                         [Fin 1, Fin 1, Fin (- 2)], [Fin (- 1), Fin (- 1), Fin 1]]\<rparr>"
  have c: "conformant ?Y ?Yh 3" and c': "conformant ?Y ?Y 3"
    by (simp_all add: conformant_def well_shaped_def nrows_def)
  have sel: "isR2 ''R2''"
    by (simp add: lower_eval)
  then have v: "isR2 ''R2'' \<or> isBFR ''R2'' \<or> isAcc ''R2''" ..
  have asc: "is_ascii ''R2''"
    by (simp add: is_ascii_def)
  have n: "(1::nat) \<le> 3" by simp
  have s: "channel_score ''R2'' (column ?Y 0) (column ?Yh 0) = Fin 90"
    "channel_score ''R2'' (column ?Y 1) (column ?Yh 1) = Fin 80"
    "channel_score ''R2'' (column ?Y 2) (column ?Yh 2) = Fin 70"
    by (simp_all add: channel_score_def sel spec_r2_def column_eval)
  have t: "channel_score ''R2'' (column ?Y 0) (column ?Y 0) = Fin 100"
    "channel_score ''R2'' (column ?Y 1) (column ?Y 1) = Fin 100"
    "channel_score ''R2'' (column ?Y 2) (column ?Y 2) = Fin 100"
    by (simp_all add: channel_score_def sel spec_r2_def column_eval)
  from report_overall_scores [OF c c' v asc n, of fmt_4f] obtain res tr te where
    res: "compute_scores fmt_4f ?Y ?Yh ?Y ?Y ''R2'' = Inr res"
    and l: "length tr = 3" "length te = 3"
    and ch: "\<And>i. i < 3 \<Longrightarrow>
        tr ! i = channel_score ''R2'' (column ?Y i) (column ?Yh i) \<and>
        te ! i = channel_score ''R2'' (column ?Y i) (column ?Y i)"
    and sc: "score_train res = PerOutput tr" "score_test res = PerOutput te"
    and m: "msg res = spec_report fmt_4f ''R2'' tr te"
    by auto
  from ch [of 0] ch [of 1] ch [of 2] s t list3 [OF l(1)] list3 [OF l(2)]
  have tr: "tr = [Fin 90, Fin 80, Fin 70]" and te: "te = [Fin 100, Fin 100, Fin 100]"
    by simp_all
  have rep: "spec_report fmt_4f ''R2'' [Fin 90, Fin 80, Fin 70] [Fin 100, Fin 100, Fin 100] =
      [CHR 0x0A] @ ''y1: R2 score: training =  90.0000, test =  100.0000'' @
      [CHR 0x0A] @ ''y2: R2 score: training =  80.0000, test =  100.0000'' @
      [CHR 0x0A] @ ''y3: R2 score: training =  70.0000, test =  100.0000'' @
      [CHR 0x0A] @ ''-----'' @
      [CHR 0x0A] @ ''Average R2 score:  training =  80.0000, test =  100.0000''"
    by (simp add: spec_report_def spec_channel_line_def spec_summary_def spec_unit_def
        spec_mean_def np_sum_def of_real64_moderate lower_eval upt_conv_Cons
        half_even_def digit_char_def Let_def)
  have "res = \<lparr>score_train = PerOutput [Fin 90, Fin 80, Fin 70],
          score_test = PerOutput [Fin 100, Fin 100, Fin 100],
          msg = [CHR 0x0A] @ ''y1: R2 score: training =  90.0000, test =  100.0000'' @
                [CHR 0x0A] @ ''y2: R2 score: training =  80.0000, test =  100.0000'' @
                [CHR 0x0A] @ ''y3: R2 score: training =  70.0000, test =  100.0000'' @
                [CHR 0x0A] @ ''-----'' @
                [CHR 0x0A] @ ''Average R2 score:  training =  80.0000, test =  100.0000''\<rparr>"
    using sc m unfolding tr te rep by (cases res) simp
  with res c c' v asc n show ?thesis
    by simp
qed

section \<open>Perfect fit and zero variance\<close>

lemma of_real64_zero: "of_real64 0 = Fin 0"
  using fmax_pos by (simp add: of_real64_def)

lemma of_real64_one: "of_real64 1 = Fin 1"
  by (rule of_real64_moderate) simp

lemma of_real64_hundred: "of_real64 100 = Fin 100"
  by (rule of_real64_moderate) simp

lemma np_sum_zeros: "np_sum (replicate n (Fin 0)) = Fin 0"
proof -
  have "foldl f_add (Fin 0) (replicate n (Fin 0)) = Fin 0"
    by (induction n) (simp_all add: of_real64_zero)
  then show ?thesis by (simp add: np_sum_def)
qed

lemma residual_zero:
  "list_all is_finite y \<Longrightarrow>
   map2 (\<lambda>p r. f_mul (f_sub p r) (f_sub p r)) y y = replicate (length y) (Fin 0)"
proof (induction y)
  case Nil
  then show ?case by simp
next
  case (Cons x y)
  then obtain a where "x = Fin a"
    by (auto simp: is_finite_iff)
  with Cons show ?case
    by (simp add: of_real64_zero)
qed

lemma zero_over_denominator: "d \<noteq> Fin 0 \<Longrightarrow> d \<noteq> NaN \<Longrightarrow> f_div (Fin 0) d = Fin 0"
  by (cases d) (simp_all add: of_real64_zero)

lemma perfect_channel:
  assumes "list_all is_finite y" and "isR2 fit \<or> isBFR fit"
    and "score_denominator fit y \<noteq> Fin 0" and "score_denominator fit y \<noteq> NaN"
  shows "channel_score fit y y = Fin 100"
proof -
  have s: "np_sum (map (\<lambda>v. f_mul (f_sub v (np_mean y)) (f_sub v (np_mean y))) y) = sum_sq_dev y"
    by (simp add: sum_sq_dev_def Let_def)
  show ?thesis
  proof (cases "isR2 fit")
    case True
    with assms(3,4) have "f_div (Fin 0) (sum_sq_dev y) = Fin 0"
      by (simp add: score_denominator_def zero_over_denominator)
    then have "spec_r2 y y = Fin 100"
      unfolding spec_r2_def residual_zero [OF assms(1)] np_sum_zeros s
      by (simp add: of_real64_one of_real64_hundred)
    with True show ?thesis
      by (simp add: channel_score_def)
  next
    case False
    with assms(3,4) have "f_div (Fin 0) (f_sqrt (sum_sq_dev y)) = Fin 0"
      by (simp add: score_denominator_def zero_over_denominator)
    then have "spec_bfr y y = Fin 100"
      unfolding spec_bfr_def residual_zero [OF assms(1)] np_sum_zeros s
      by (simp add: of_real64_zero of_real64_one of_real64_hundred)
    with False assms(2) show ?thesis
      by (simp add: channel_score_def)
  qed
qed

lemma foldl_add_replicate:
  "0 \<le> a \<Longrightarrow> 0 \<le> c \<Longrightarrow> a + real n * c \<le> fmax \<Longrightarrow>
   foldl f_add (Fin a) (replicate n (Fin c)) = Fin (a + real n * c)"
proof (induction n arbitrary: a)
  case 0
  then show ?case by simp
next
  case (Suc n)
  have le: "a + c \<le> a + real (Suc n) * c"
    using Suc.prems(2) by (simp add: algebra_simps mult_nonneg_nonneg)
  then have "of_real64 (a + c) = Fin (a + c)"
    using Suc.prems by (intro of_real64_Fin) simp
  moreover have "foldl f_add (Fin (a + c)) (replicate n (Fin c)) = Fin (a + c + real n * c)"
    using Suc.prems by (intro Suc.IH) (simp_all add: algebra_simps)
  ultimately show ?case
    by (simp add: algebra_simps)
qed

lemma mean_of_hundreds:
  assumes "0 < n" and "100 * real n \<le> fmax"
  shows "f_div (np_sum (replicate n (Fin 100))) (Fin (real n)) = Fin 100"
proof -
  have "np_sum (replicate n (Fin 100)) = Fin (real n * 100)"
    using assms foldl_add_replicate [of 0 100 n] by (simp add: np_sum_def mult.commute)
  with assms(1) show ?thesis
    by (simp add: of_real64_hundred)
qed

lemma column_finite:
  assumes "well_shaped Y" and "list_all (list_all is_finite) (rows Y)" and "i < ncols Y"
  shows "list_all is_finite (column Y i)"
  using assms by (auto simp: column_def list_all_iff well_shaped_def)

lemma conformant_self: "well_shaped Y \<Longrightarrow> ncols Y = ny \<Longrightarrow> conformant Y Y ny"
  by (simp add: conformant_def)

text \<open>
  C8, as stated, fails: a prediction equal to a constant reference does not score \<open>100\<close>. For the
  reference \<open>[[5],[5]]\<close> predicted exactly, both denominators are \<open>0\<close> and both scores are
  \<open>0/0\<close>-born \<open>nan\<close>.
\<close>

theorem perfect_fit_constant_reference:
  "compute_scores fmt_4f \<lparr>ncols = 1, rows = [[Fin 5], [Fin 5]]\<rparr>
     \<lparr>ncols = 1, rows = [[Fin 5], [Fin 5]]\<rparr> \<lparr>ncols = 1, rows = [[Fin 5], [Fin 5]]\<rparr>
     \<lparr>ncols = 1, rows = [[Fin 5], [Fin 5]]\<rparr> ''R2'' =
   Inr \<lparr>score_train = Scalar NaN, score_test = Scalar NaN,
        msg = ''R2 score:  training =   nan, test =   nan''\<rparr>"
proof -
  have c: "conformant \<lparr>ncols = 1, rows = [[Fin 5], [Fin 5]]\<rparr>
      \<lparr>ncols = 1, rows = [[Fin 5], [Fin 5]]\<rparr> 1"
    by (simp add: conformant_def well_shaped_def nrows_def)
  have sel: "isR2 ''R2''"
    by (simp add: lower_eval)
  then have v: "isR2 ''R2'' \<or> isBFR ''R2'' \<or> isAcc ''R2''" ..
  have s: "channel_score ''R2'' (flat \<lparr>ncols = 1, rows = [[Fin 5], [Fin 5]]\<rparr>)
      (flat \<lparr>ncols = 1, rows = [[Fin 5], [Fin 5]]\<rparr>) = NaN"
    by (simp add: channel_score_def sel spec_r2_def flat_def column_eval)
  show ?thesis
    unfolding compute_scores_single [OF c c v order_refl] s
    by (simp add: score_line_def isR2_not_isAcc [OF sel] lower_eval half_even_def digit_char_def
        Let_def)
qed

text \<open>
  C8, amended. For the R2 and BFR metrics and at least one output, if the predictions are the
  reference arrays themselves, with finite entries, and in every channel of the training and
  of the test reference the computed denominator of the metric (\<open>sum((Y - mean(Y))^2)\<close> for
  R2, its root for BFR) is neither \<open>0\<close> nor \<open>nan\<close>, then every channel score is \<open>100\<close> for
  training and test, and so are the two overall scores of the report (for a number of outputs
  whose hundredfold is below \<open>2^53\<close>, so that the sum of the scores is exact).
\<close>

theorem perfect_fit_scores:
  assumes "well_shaped Y_train" and "well_shaped Y_test"
    and "ncols Y_train = ny" and "ncols Y_test = ny"
    and "list_all (list_all is_finite) (rows Y_train)"
    and "list_all (list_all is_finite) (rows Y_test)"
    and "isR2 fit \<or> isBFR fit" and "1 \<le> ny" and "100 * real ny \<le> 2 ^ 53"
    and "\<forall>i<ny. score_denominator fit (column Y_train i) \<noteq> Fin 0 \<and>
                score_denominator fit (column Y_train i) \<noteq> NaN \<and>
                score_denominator fit (column Y_test i) \<noteq> Fin 0 \<and>
                score_denominator fit (column Y_test i) \<noteq> NaN"
  shows "\<exists>res m. compute_scores fmt Y_train Y_train Y_test Y_test fit = Inr res \<and>
     (\<forall>i<ny. channel (score_train res) i = Fin 100 \<and> channel (score_test res) i = Fin 100) \<and>
     msg res = m @ spec_summary fmt fit (Fin 100) (Fin 100)"
proof -
  have tr: "conformant Y_train Y_train ny" and te: "conformant Y_test Y_test ny"
    using assms(1-4) by (simp_all add: conformant_self)
  from assms(7) have v: "isR2 fit \<or> isBFR fit \<or> isAcc fit" by blast
  from assms(7) have na: "\<not> isAcc fit"
    by (auto dest: isR2_not_isAcc isBFR_not_isAcc)
  have "(2::real) ^ 53 \<le> fmax"
    by (simp add: fmax_def)
  with assms(9) have big: "100 * real ny \<le> fmax"
    by simp
  have ctr: "channel_score fit (column Y_train i) (column Y_train i) = Fin 100" if "i < ny" for i
    using that assms(1,3,5,7,10) by (intro perfect_channel column_finite) auto
  have cte: "channel_score fit (column Y_test i) (column Y_test i) = Fin 100" if "i < ny" for i
    using that assms(2,4,6,7,10) by (intro perfect_channel column_finite) auto
  from compute_scores_overall [OF tr te v assms(8), of fmt] obtain res m where
    res: "compute_scores fmt Y_train Y_train Y_test Y_test fit = Inr res"
    and m: "msg res = m @ score_line fmt fit ''  '' (if isAcc fit then ''%'' else [])
                 (mean_score (score_train res)) (mean_score (score_test res))"
    and ch: "\<And>i. i < ny \<Longrightarrow>
        channel (score_train res) i = channel_score fit (column Y_train i) (column Y_train i) \<and>
        channel (score_test res) i = channel_score fit (column Y_test i) (column Y_test i)"
    and multi: "1 < ny \<Longrightarrow> \<exists>a b. score_train res = PerOutput a \<and> score_test res = PerOutput b \<and>
                     length a = ny \<and> length b = ny"
    and single: "ny = 1 \<Longrightarrow> \<exists>a b. score_train res = Scalar a \<and> score_test res = Scalar b"
    by blast
  have hundred: "channel (score_train res) i = Fin 100 \<and> channel (score_test res) i = Fin 100"
    if "i < ny" for i
    using ch [OF that] ctr [OF that] cte [OF that] by simp
  have "mean_score (score_train res) = Fin 100 \<and> mean_score (score_test res) = Fin 100"
  proof (cases "1 < ny")
    case True
    from multi [OF True] obtain a b where
      ab: "score_train res = PerOutput a" "score_test res = PerOutput b"
        "length a = ny" "length b = ny"
      by blast
    have "a = replicate ny (Fin 100)" "b = replicate ny (Fin 100)"
      using hundred ab by (auto intro!: nth_equalityI)
    with ab True big show ?thesis
      by (simp add: mean_of_hundreds)
  next
    case False
    with assms(8) have one: "ny = 1" by simp
    from single [OF one] obtain a b where
      ab: "score_train res = Scalar a" "score_test res = Scalar b"
      by blast
    with hundred [of 0] one show ?thesis by simp
  qed
  with m have "msg res = m @ spec_summary fmt fit (Fin 100) (Fin 100)"
    by (simp add: score_line_summary)
  with res hundred show ?thesis
    by blast
qed

theorem perfect_fit_scores_witness:
  "well_shaped \<lparr>ncols = 2, rows = [[Fin 0, Fin 1], [Fin 2, Fin 3], [Fin 0, Fin 3], [Fin 2, Fin 1]]\<rparr> \<and>
   well_shaped \<lparr>ncols = 2, rows = [[Fin 5, Fin 2], [Fin 7, Fin 0], [Fin 5, Fin 2], [Fin 7, Fin 0]]\<rparr> \<and>
   list_all (list_all is_finite) [[Fin 0, Fin 1], [Fin 2, Fin 3], [Fin 0, Fin 3], [Fin 2, Fin 1]] \<and>
   list_all (list_all is_finite) [[Fin 5, Fin 2], [Fin 7, Fin 0], [Fin 5, Fin 2], [Fin 7, Fin 0]] \<and>
   isBFR ''BFR'' \<and> 100 * real (2::nat) \<le> 2 ^ 53 \<and>
   score_denominator ''BFR''
     (column \<lparr>ncols = 2, rows = [[Fin 0, Fin 1], [Fin 2, Fin 3], [Fin 0, Fin 3], [Fin 2, Fin 1]]\<rparr> 0)
     = Fin 2 \<and>
   score_denominator ''BFR''
     (column \<lparr>ncols = 2, rows = [[Fin 0, Fin 1], [Fin 2, Fin 3], [Fin 0, Fin 3], [Fin 2, Fin 1]]\<rparr> 1)
     = Fin 2 \<and>
   score_denominator ''BFR''
     (column \<lparr>ncols = 2, rows = [[Fin 5, Fin 2], [Fin 7, Fin 0], [Fin 5, Fin 2], [Fin 7, Fin 0]]\<rparr> 0)
     = Fin 2 \<and>
   score_denominator ''BFR''
     (column \<lparr>ncols = 2, rows = [[Fin 5, Fin 2], [Fin 7, Fin 0], [Fin 5, Fin 2], [Fin 7, Fin 0]]\<rparr> 1)
     = Fin 2 \<and>
   (\<exists>res m. compute_scores fmt_4f
       \<lparr>ncols = 2, rows = [[Fin 0, Fin 1], [Fin 2, Fin 3], [Fin 0, Fin 3], [Fin 2, Fin 1]]\<rparr>
       \<lparr>ncols = 2, rows = [[Fin 0, Fin 1], [Fin 2, Fin 3], [Fin 0, Fin 3], [Fin 2, Fin 1]]\<rparr>
       \<lparr>ncols = 2, rows = [[Fin 5, Fin 2], [Fin 7, Fin 0], [Fin 5, Fin 2], [Fin 7, Fin 0]]\<rparr>
       \<lparr>ncols = 2, rows = [[Fin 5, Fin 2], [Fin 7, Fin 0], [Fin 5, Fin 2], [Fin 7, Fin 0]]\<rparr>
       ''BFR'' = Inr res \<and>
      channel (score_train res) 0 = Fin 100 \<and> channel (score_train res) 1 = Fin 100 \<and>
      channel (score_test res) 0 = Fin 100 \<and> channel (score_test res) 1 = Fin 100 \<and>
      msg res = m @ ''Bfr score:  training =  100.0000, test =  100.0000'')"
proof -
  let ?A = "\<lparr>ncols = 2, rows = [[Fin 0, Fin 1], [Fin 2, Fin 3], [Fin 0, Fin 3], [Fin 2, Fin 1]]\<rparr>"
  let ?B = "\<lparr>ncols = 2, rows = [[Fin 5, Fin 2], [Fin 7, Fin 0], [Fin 5, Fin 2], [Fin 7, Fin 0]]\<rparr>"
  have w: "well_shaped ?A" "well_shaped ?B"
    by (simp_all add: well_shaped_def)
  have k: "ncols ?A = 2" "ncols ?B = 2"
    by simp_all
  have f: "list_all (list_all is_finite) (rows ?A)" "list_all (list_all is_finite) (rows ?B)"
    by simp_all
  have sel: "isBFR ''BFR''"
    by (simp add: lower_eval)
  then have v: "isR2 ''BFR'' \<or> isBFR ''BFR''" ..
  have n: "(1::nat) \<le> 2" "100 * real (2::nat) \<le> 2 ^ 53"
    by simp_all
  have d: "score_denominator ''BFR'' (column ?A 0) = Fin 2"
    "score_denominator ''BFR'' (column ?A 1) = Fin 2"
    "score_denominator ''BFR'' (column ?B 0) = Fin 2"
    "score_denominator ''BFR'' (column ?B 1) = Fin 2"
    by (simp_all add: score_denominator_def isBFR_not_isR2 [OF sel] sum_sq_dev_def column_eval
        Let_def)
  have nz: "\<forall>i<2. score_denominator ''BFR'' (column ?A i) \<noteq> Fin 0 \<and>
                score_denominator ''BFR'' (column ?A i) \<noteq> NaN \<and>
                score_denominator ''BFR'' (column ?B i) \<noteq> Fin 0 \<and>
                score_denominator ''BFR'' (column ?B i) \<noteq> NaN"
    using d by (auto simp: less_Suc_eq eval_nat_numeral)
  from perfect_fit_scores [OF w k f v n nz, of fmt_4f] obtain res m where
    "compute_scores fmt_4f ?A ?A ?B ?B ''BFR'' = Inr res"
    "\<forall>i<2. channel (score_train res) i = Fin 100 \<and> channel (score_test res) i = Fin 100"
    "msg res = m @ spec_summary fmt_4f ''BFR'' (Fin 100) (Fin 100)"
    by blast
  moreover from this(2) have "channel (score_train res) 0 = Fin 100"
    "channel (score_train res) 1 = Fin 100" "channel (score_test res) 0 = Fin 100"
    "channel (score_test res) 1 = Fin 100"
    by simp_all
  moreover have "spec_summary fmt_4f ''BFR'' (Fin 100) (Fin 100) =
      ''Bfr score:  training =  100.0000, test =  100.0000''"
    by (simp add: spec_summary_def spec_unit_def lower_eval half_even_def digit_char_def Let_def)
  ultimately show ?thesis
    using w f sel n(2) d by auto
qed








section \<open>unscale_model\<close>

lemma nth_column: "r < nrows A \<Longrightarrow> column A j ! r = rows A ! r ! j"
  by (simp add: column_def nrows_def)

lemma mat_vec_op_transpose:
  assumes "length g = nrows C"
  shows "mat_vec_op f (transpose_nd C) g =
     Inr \<lparr>ncols = nrows C, rows = map (\<lambda>j. map2 f (column C j) g) [0..<ncols C]\<rparr>"
  using assms
  by (simp add: mat_vec_op_def transpose_nd_def broadcast_dim_same stretch_same length_column
      comp_def)

lemma transpose_scaled:
  assumes "length g = nrows C"
  shows "transpose_nd \<lparr>ncols = nrows C, rows = map (\<lambda>j. map2 f (column C j) g) [0..<ncols C]\<rparr> =
     \<lparr>ncols = ncols C,
      rows = map (\<lambda>r. map (\<lambda>j. f (rows C ! r ! j) (g ! r)) [0..<ncols C]) [0..<nrows C]\<rparr>"
  using assms
  by (simp add: transpose_nd_def nrows_def column_def comp_def)

lemma scale_cols:
  assumes "well_shaped B" and "length g = ncols B"
  shows "mat_vec_op f B g = Inr \<lparr>ncols = ncols B, rows = map (\<lambda>r. map2 f r g) (rows B)\<rparr>"
    and "r < nrows B \<Longrightarrow> j < ncols B \<Longrightarrow> map (\<lambda>r. map2 f r g) (rows B) ! r ! j = f (rows B ! r ! j) (g ! j)"
  using assms well_shaped_row [of B r]
  by (simp_all add: mat_vec_op_conformant nrows_def)

lemma rebuild_rows:
  assumes "well_shaped M"
  shows "\<lparr>ncols = ncols M, rows = map (\<lambda>r. map (\<lambda>j. rows M ! r ! j) [0..<ncols M]) [0..<nrows M]\<rparr> = M"
proof -
  have "map (\<lambda>r. map (\<lambda>j. rows M ! r ! j) [0..<ncols M]) [0..<nrows M] = rows M"
    using assms
    by (intro nth_equalityI) (simp_all add: nrows_def well_shaped_def list_all_length map_nth)
  then show ?thesis by simp
qed

lemma unscale_model_result:
  assumes wb: "well_shaped B" and lu: "length ugain = ncols B"
    and ly: "length ygain = nrows C"
    and wd: "well_shaped D" and cd: "ncols D = ncols B" and rd: "nrows D = nrows C"
  shows "unscale_model A B C D ymean ygain umean ugain =
     Inr (A,
          \<lparr>ncols = ncols B, rows = map (\<lambda>r. map2 f_mul r ugain) (rows B)\<rparr>,
          \<lparr>ncols = ncols C,
           rows = map (\<lambda>r. map (\<lambda>j. f_div (rows C ! r ! j) (ygain ! r)) [0..<ncols C])
                    [0..<nrows C]\<rparr>,
          \<lparr>ncols = ncols D,
           rows = map (\<lambda>r. map (\<lambda>j. f_div (map (\<lambda>r. map2 f_mul r ugain) (rows D) ! r ! j)
                                      (ygain ! r)) [0..<ncols D])
                    [0..<nrows D]\<rparr>,
          ymean, umean)"
proof -
  let ?D1 = "\<lparr>ncols = ncols D, rows = map (\<lambda>r. map2 f_mul r ugain) (rows D)\<rparr>"
  have b: "mat_vec_op f_mul B ugain =
      Inr \<lparr>ncols = ncols B, rows = map (\<lambda>r. map2 f_mul r ugain) (rows B)\<rparr>"
    using wb lu by (rule scale_cols(1))
  have d: "mat_vec_op f_mul D ugain = Inr ?D1"
    using wd lu cd by (intro scale_cols(1)) simp_all
  have c: "mat_vec_op f_div (transpose_nd C) ygain =
      Inr \<lparr>ncols = nrows C, rows = map (\<lambda>j. map2 f_div (column C j) ygain) [0..<ncols C]\<rparr>"
    using ly by (rule mat_vec_op_transpose)
  have ly1: "length ygain = nrows ?D1"
    using ly rd by (simp add: nrows_def)
  have d2: "mat_vec_op f_div (transpose_nd ?D1) ygain =
      Inr \<lparr>ncols = nrows ?D1, rows = map (\<lambda>j. map2 f_div (column ?D1 j) ygain) [0..<ncols ?D1]\<rparr>"
    using ly1 by (rule mat_vec_op_transpose)
  have d3: "transpose_nd
      \<lparr>ncols = nrows ?D1, rows = map (\<lambda>j. map2 f_div (column ?D1 j) ygain) [0..<ncols ?D1]\<rparr> =
     \<lparr>ncols = ncols D,
      rows = map (\<lambda>r. map (\<lambda>j. f_div (map (\<lambda>r. map2 f_mul r ugain) (rows D) ! r ! j)
                                 (ygain ! r)) [0..<ncols D])
               [0..<nrows D]\<rparr>"
    unfolding transpose_scaled [OF ly1] by (simp add: nrows_def)
  show ?thesis
    by (simp only: unscale_model_def b c d d2 ebind_def sum.case transpose_scaled [OF ly] d3)
qed

text \<open>
  C6. For conformant inputs, \<open>unscale_model\<close> returns \<open>A\<close>, \<open>ymean\<close> and \<open>umean\<close> as they are,
  together with three matrices of the shapes of \<open>B\<close>, \<open>C\<close> and \<open>D\<close>: \<open>B\<close> with column \<open>j\<close>
  multiplied by \<open>ugain[j]\<close>, \<open>C\<close> with row \<open>r\<close> divided by \<open>ygain[r]\<close>, and \<open>D\<close> with column \<open>j\<close>
  multiplied by \<open>ugain[j]\<close> and then row \<open>r\<close> divided by \<open>ygain[r]\<close>. The result is a tuple of
  six components: the gains are not returned. With gains all equal to \<open>1\<close> and matrices of
  doubles, the returned \<open>B\<close>, \<open>C\<close> and \<open>D\<close> are the inputs.
\<close>

theorem unscale_model_computes:
  assumes "well_shaped B" and "length ugain = ncols B"
    and "well_shaped C" and "length ygain = nrows C"
    and "well_shaped D" and "ncols D = ncols B" and "nrows D = nrows C"
  shows "\<exists>B' C' D'. unscale_model A B C D ymean ygain umean ugain =
       Inr (A, B', C', D', ymean, umean) \<and>
     well_shaped B' \<and> ncols B' = ncols B \<and> nrows B' = nrows B \<and>
     (\<forall>r<nrows B. \<forall>j<ncols B. rows B' ! r ! j = f_mul (rows B ! r ! j) (ugain ! j)) \<and>
     well_shaped C' \<and> ncols C' = ncols C \<and> nrows C' = nrows C \<and>
     (\<forall>r<nrows C. \<forall>j<ncols C. rows C' ! r ! j = f_div (rows C ! r ! j) (ygain ! r)) \<and>
     well_shaped D' \<and> ncols D' = ncols D \<and> nrows D' = nrows D \<and>
     (\<forall>r<nrows D. \<forall>j<ncols D.
        rows D' ! r ! j = f_div (f_mul (rows D ! r ! j) (ugain ! j)) (ygain ! r)) \<and>
     (list_all (list_all representable) (rows B) \<and>
      list_all (list_all representable) (rows C) \<and>
      list_all (list_all representable) (rows D) \<and>
      ugain = replicate (ncols B) (Fin 1) \<and> ygain = replicate (nrows C) (Fin 1) \<longrightarrow>
      B' = B \<and> C' = C \<and> D' = D)"
proof -
  let ?B' = "\<lparr>ncols = ncols B, rows = map (\<lambda>r. map2 f_mul r ugain) (rows B)\<rparr>"
  let ?C' = "\<lparr>ncols = ncols C,
           rows = map (\<lambda>r. map (\<lambda>j. f_div (rows C ! r ! j) (ygain ! r)) [0..<ncols C])
                    [0..<nrows C]\<rparr>"
  let ?D' = "\<lparr>ncols = ncols D,
           rows = map (\<lambda>r. map (\<lambda>j. f_div (map (\<lambda>r. map2 f_mul r ugain) (rows D) ! r ! j)
                                      (ygain ! r)) [0..<ncols D])
                    [0..<nrows D]\<rparr>"
  note res = unscale_model_result [OF assms(1,2,4,5,6,7), of A ymean umean]
  have lu: "length ugain = ncols D"
    using assms(2,6) by simp
  have eb: "rows ?B' ! r ! j = f_mul (rows B ! r ! j) (ugain ! j)"
    if "r < nrows B" "j < ncols B" for r j
    using scale_cols(2) [where f = f_mul, OF assms(1,2) that] by simp
  have ec: "rows ?C' ! r ! j = f_div (rows C ! r ! j) (ygain ! r)"
    if "r < nrows C" "j < ncols C" for r j
    using that by simp
  have ed: "rows ?D' ! r ! j = f_div (f_mul (rows D ! r ! j) (ugain ! j)) (ygain ! r)"
    if "r < nrows D" "j < ncols D" for r j
    using that scale_cols(2) [where f = f_mul, OF assms(5) lu that] by simp
  have wsb: "well_shaped ?B'"
    using assms(1,2) by (simp add: well_shaped_def list_all_iff)
  have wsc: "well_shaped ?C'"
    by (simp add: well_shaped_def list_all_iff)
  have wsd: "well_shaped ?D'"
    by (simp add: well_shaped_def list_all_iff)
  have ident: "?B' = B \<and> ?C' = C \<and> ?D' = D"
    if rb: "list_all (list_all representable) (rows B)"
      and rc: "list_all (list_all representable) (rows C)"
      and rd: "list_all (list_all representable) (rows D)"
      and u: "ugain = replicate (ncols B) (Fin 1)" and y: "ygain = replicate (nrows C) (Fin 1)"
  proof -
    have rep: "representable (rows M ! r ! j)"
      if "list_all (list_all representable) (rows M)" "well_shaped M" "r < nrows M" "j < ncols M"
      for M :: "float64 ndarray" and r j
      using that well_shaped_row [of M r] by (simp add: list_all_length nrows_def)
    have "map (\<lambda>r. map2 f_mul r ugain) (rows M) = rows M"
      if "list_all (list_all representable) (rows M)" "well_shaped M" "ncols M = ncols B"
      for M :: "float64 ndarray"
    proof (rule map_idI)
      fix r assume "r \<in> set (rows M)"
      with that have l: "length r = ncols B" and rr: "list_all representable r"
        by (simp_all add: well_shaped_def list_all_iff)
      show "map2 f_mul r ugain = r"
        using l rr unfolding u
        by (intro nth_equalityI) (simp_all add: list_all_length f_mul_one)
    qed
    note cols = this
    have b: "?B' = B"
      using cols [OF rb assms(1) refl] by simp
    have mc: "map (\<lambda>r. map (\<lambda>j. f_div (rows C ! r ! j) (ygain ! r)) [0..<ncols C]) [0..<nrows C] =
        map (\<lambda>r. map (\<lambda>j. rows C ! r ! j) [0..<ncols C]) [0..<nrows C]"
      unfolding y using rep [OF rc assms(3)] by (simp add: f_div_one)
    have c: "?C' = C"
      unfolding mc by (rule rebuild_rows [OF assms(3)])
    have md: "map (\<lambda>r. map (\<lambda>j. f_div (map (\<lambda>r. map2 f_mul r ugain) (rows D) ! r ! j)
                                      (ygain ! r)) [0..<ncols D]) [0..<nrows D] =
        map (\<lambda>r. map (\<lambda>j. rows D ! r ! j) [0..<ncols D]) [0..<nrows D]"
      unfolding cols [OF rd assms(5,6)] y using rep [OF rd assms(5)] assms(7)
      by (simp add: f_div_one)
    have d: "?D' = D"
      unfolding md by (rule rebuild_rows [OF assms(5)])
    from b c d show ?thesis by simp
  qed
  show ?thesis
    apply (rule exI [of _ ?B'], rule exI [of _ ?C'], rule exI [of _ ?D'])
    apply (intro conjI allI impI)
    subgoal by (rule res)
    subgoal by (rule wsb)
    subgoal by simp
    subgoal by (simp add: nrows_def)
    subgoal for r j by (rule eb)
    subgoal by (rule wsc)
    subgoal by simp
    subgoal by (simp add: nrows_def)
    subgoal for r j by (rule ec)
    subgoal by (rule wsd)
    subgoal by simp
    subgoal by (simp add: nrows_def)
    subgoal for r j by (rule ed)
    subgoal using ident by blast
    subgoal using ident by blast
    subgoal using ident by blast
    done
qed

theorem unscale_model_computes_witness:
  "well_shaped \<lparr>ncols = 2, rows = [[Fin 1, Fin 2]]\<rparr> \<and>
   length [Fin 2, Fin 4] = ncols \<lparr>ncols = 2, rows = [[Fin 1, Fin 2]]\<rparr> \<and>
   well_shaped \<lparr>ncols = 1, rows = [[Fin 3], [Fin 4]]\<rparr> \<and>
   length [Fin (1 / 2), Fin 2] = nrows \<lparr>ncols = 1, rows = [[Fin 3], [Fin 4]]\<rparr> \<and>
   well_shaped \<lparr>ncols = 2, rows = [[Fin 1, Fin 2], [Fin 3, Fin 4]]\<rparr> \<and>
   unscale_model \<lparr>ncols = 1, rows = [[Fin (1 / 2)]]\<rparr> \<lparr>ncols = 2, rows = [[Fin 1, Fin 2]]\<rparr>
     \<lparr>ncols = 1, rows = [[Fin 3], [Fin 4]]\<rparr>
     \<lparr>ncols = 2, rows = [[Fin 1, Fin 2], [Fin 3, Fin 4]]\<rparr>
     [Fin 10, Fin 20] [Fin (1 / 2), Fin 2] [Fin 5, Fin 6] [Fin 2, Fin 4] =
   Inr (\<lparr>ncols = 1, rows = [[Fin (1 / 2)]]\<rparr>, \<lparr>ncols = 2, rows = [[Fin 2, Fin 8]]\<rparr>,
        \<lparr>ncols = 1, rows = [[Fin 6], [Fin 2]]\<rparr>,
        \<lparr>ncols = 2, rows = [[Fin 4, Fin 16], [Fin 3, Fin 8]]\<rparr>,
        [Fin 10, Fin 20], [Fin 5, Fin 6])"
proof -
  let ?B = "\<lparr>ncols = 2, rows = [[Fin 1, Fin 2]]\<rparr>"
  let ?C = "\<lparr>ncols = 1, rows = [[Fin 3], [Fin 4]]\<rparr>"
  let ?D = "\<lparr>ncols = 2, rows = [[Fin 1, Fin 2], [Fin 3, Fin 4]]\<rparr>"
  have wb: "well_shaped ?B" and wc: "well_shaped ?C" and wd: "well_shaped ?D"
    by (simp_all add: well_shaped_def)
  have lu: "length [Fin 2, Fin 4] = ncols ?B"
    and ly: "length [Fin (1 / 2), Fin 2] = nrows ?C"
    and cd: "ncols ?D = ncols ?B" and rd: "nrows ?D = nrows ?C"
    by (simp_all add: nrows_def)
  have e: "unscale_model \<lparr>ncols = 1, rows = [[Fin (1 / 2)]]\<rparr> ?B ?C ?D
     [Fin 10, Fin 20] [Fin (1 / 2), Fin 2] [Fin 5, Fin 6] [Fin 2, Fin 4] =
   Inr (\<lparr>ncols = 1, rows = [[Fin (1 / 2)]]\<rparr>, \<lparr>ncols = 2, rows = [[Fin 2, Fin 8]]\<rparr>,
        \<lparr>ncols = 1, rows = [[Fin 6], [Fin 2]]\<rparr>,
        \<lparr>ncols = 2, rows = [[Fin 4, Fin 16], [Fin 3, Fin 8]]\<rparr>,
        [Fin 10, Fin 20], [Fin 5, Fin 6])"
    unfolding unscale_model_result [OF wb lu ly wd cd rd]
    by (simp add: nrows_def upt_conv_Cons of_real64_moderate)
  from unscale_model_computes [OF wb lu wc ly wd cd rd,
      of "\<lparr>ncols = 1, rows = [[Fin (1 / 2)]]\<rparr>" "[Fin 10, Fin 20]" "[Fin 5, Fin 6]"]
  obtain B' C' D' where
    "unscale_model \<lparr>ncols = 1, rows = [[Fin (1 / 2)]]\<rparr> ?B ?C ?D
       [Fin 10, Fin 20] [Fin (1 / 2), Fin 2] [Fin 5, Fin 6] [Fin 2, Fin 4] =
     Inr (\<lparr>ncols = 1, rows = [[Fin (1 / 2)]]\<rparr>, B', C', D', [Fin 10, Fin 20], [Fin 5, Fin 6])"
    by blast
  with e wb wc wd lu ly show ?thesis
    by simp
qed


end
